theory Spec2Isabelle
  imports Main
begin

chapter \<open>The PDF chatbot client: a shallow embedding\<close>

text \<open>
  The sources are the React client of a retrieval service: the API service module
  \<^verbatim>\<open>services/api.js\<close>, the root component \<^verbatim>\<open>App.jsx\<close> and the components \<^verbatim>\<open>PDFUpload\<close>,
  \<^verbatim>\<open>QuestionAnswer\<close> and \<^verbatim>\<open>DuplicateModal\<close>. A handler is modelled as a function from the
  component state at the moment it is invoked to the state once it, and every promise it
  awaits, has settled; no other handler runs in between. React applies queued state
  updates in the order they were issued, so the committed state is the sequential
  composition of the updates. What a handler does to the DOM event itself
  (\<^verbatim>\<open>preventDefault\<close>, \<^verbatim>\<open>stopPropagation\<close>) and what it writes to the console are left out.

  Strings are lists of code units below \<open>0x100\<close>.

  The service itself is not among the sources; the last chapter of definitions models
  its ingestion core from the specification.
\<close>

section \<open>JavaScript errors\<close>

text \<open>The error classes that occur: \<^verbatim>\<open>new Error(msg)\<close> of the API module, the \<^verbatim>\<open>TypeError\<close>
  of a failed \<^verbatim>\<open>fetch\<close> or of a property read on \<^verbatim>\<open>null\<close>, and the \<^verbatim>\<open>SyntaxError\<close> of
  \<^verbatim>\<open>response.json()\<close> on a body that is not JSON.\<close>

datatype js_error = Error string | TypeError string | SyntaxError string

fun error_message :: "js_error \<Rightarrow> string" where
  "error_message (Error m) = m"
| "error_message (TypeError m) = m"
| "error_message (SyntaxError m) = m"

section \<open>Callbacks\<close>

text \<open>
  A component receives its callbacks (\<^verbatim>\<open>onUpload\<close>, \<^verbatim>\<open>onAsk\<close>, \<^verbatim>\<open>onAction\<close>) as props. A
  callback acts on the world \<open>'w\<close> of the parent and its promise resolves (\<open>Inr\<close>) or
  rejects (\<open>Inl\<close>). \<open>logged\<close> wraps a callback so that every invocation is recorded with
  its argument, which makes "is called" and "is not called" observable.
\<close>

type_synonym ('a, 'w) callback = "'a \<Rightarrow> 'w \<Rightarrow> (js_error + unit) \<times> 'w"

definition logged :: "('a, 'w) callback \<Rightarrow> ('a, 'a list \<times> 'w) callback" where
  "logged cb a lw =
     (case lw of (log, w) \<Rightarrow> (case cb a w of (r, w') \<Rightarrow> (r, (log @ [a], w'))))"

section \<open>The PDFUpload component\<close>

text \<open>A browser \<^verbatim>\<open>File\<close>: the fields the client reads.\<close>

record js_file =
  file_name :: string
  file_type :: string
  file_size :: nat

text \<open>
  The component state: the two \<^verbatim>\<open>useState\<close> cells and the ref to the hidden file input.
  \<open>fileInputRef\<close> is \<open>None\<close> while \<^verbatim>\<open>fileInputRef.current\<close> is null and otherwise holds the
  \<^verbatim>\<open>value\<close> of the input element.
\<close>

record pdfupload_state =
  dragActive :: bool
  selectedFiles :: "js_file list"
  fileInputRef :: "string option"

definition handleDrag :: "string \<Rightarrow> pdfupload_state \<Rightarrow> pdfupload_state" where
  "handleDrag e_type s =
     (if e_type = ''dragenter'' \<or> e_type = ''dragover'' then s\<lparr>dragActive := True\<rparr>
      else if e_type = ''dragleave'' then s\<lparr>dragActive := False\<rparr>
      else s)"

definition handleDrop :: "js_file list \<Rightarrow> pdfupload_state \<Rightarrow> pdfupload_state" where
  "handleDrop dataTransfer_files s =
     (let s1 = s\<lparr>dragActive := False\<rparr>;
          files = filter (\<lambda>f. file_type f = ''application/pdf'') dataTransfer_files
      in if length files > 0 then s1\<lparr>selectedFiles := selectedFiles s1 @ files\<rparr> else s1)"

definition handleFileChange :: "js_file list \<Rightarrow> pdfupload_state \<Rightarrow> pdfupload_state" where
  "handleFileChange target_files s = s\<lparr>selectedFiles := selectedFiles s @ target_files\<rparr>"

definition removeFile :: "nat \<Rightarrow> pdfupload_state \<Rightarrow> pdfupload_state" where
  "removeFile index s =
     s\<lparr>selectedFiles :=
         map fst (filter (\<lambda>(_, i). i \<noteq> index)
                         (zip (selectedFiles s) [0 ..< length (selectedFiles s)]))\<rparr>"

definition clearFiles :: "pdfupload_state \<Rightarrow> pdfupload_state" where
  "clearFiles s =
     (let s1 = s\<lparr>selectedFiles := []\<rparr>
      in case fileInputRef s1 of
           None \<Rightarrow> s1
         | Some _ \<Rightarrow> s1\<lparr>fileInputRef := Some ''''\<rparr>)"

text \<open>\<^verbatim>\<open>handleUpload\<close> of PDFUpload: a rejection of the awaited \<^verbatim>\<open>onUpload\<close> leaves the
  function before \<^verbatim>\<open>clearFiles\<close> runs.\<close>

definition PDFUpload_handleUpload ::
  "(js_file list, 'w) callback \<Rightarrow> pdfupload_state \<Rightarrow> 'w \<Rightarrow> (js_error + unit) \<times> pdfupload_state \<times> 'w"
where
  "PDFUpload_handleUpload onUpload s w =
     (if length (selectedFiles s) = 0 then (Inr (), s, w)
      else case onUpload (selectedFiles s) w of
             (Inl e, w') \<Rightarrow> (Inl e, s, w')
           | (Inr _, w') \<Rightarrow> (Inr (), clearFiles s, w'))"

text \<open>The events that reach \<^verbatim>\<open>setSelectedFiles\<close>, for statements about every reachable
  selection. \<open>Uploaded\<close> is an upload whose \<^verbatim>\<open>onUpload\<close> resolved.\<close>

datatype pdfupload_event =
    Drop "js_file list"
  | FileChange "js_file list"
  | RemoveFile nat
  | ClearFiles
  | Uploaded

fun pdfupload_step :: "pdfupload_state \<Rightarrow> pdfupload_event \<Rightarrow> pdfupload_state" where
  "pdfupload_step s (Drop fs) = handleDrop fs s"
| "pdfupload_step s (FileChange fs) = handleFileChange fs s"
| "pdfupload_step s (RemoveFile i) = removeFile i s"
| "pdfupload_step s ClearFiles = clearFiles s"
| "pdfupload_step s Uploaded = (if length (selectedFiles s) = 0 then s else clearFiles s)"

definition pdfupload_init :: pdfupload_state where
  "pdfupload_init = \<lparr>dragActive = False, selectedFiles = [], fileInputRef = Some ''''\<rparr>"

definition is_pdf :: "js_file \<Rightarrow> bool" where
  "is_pdf f = (file_type f = ''application/pdf'')"

section \<open>The QuestionAnswer component\<close>

text \<open>
  \<^verbatim>\<open>String.prototype.trim\<close> removes white space and line terminators from both ends. Among
  the code units below \<open>0x100\<close> these are TAB, LF, VT, FF, CR, SPACE and NO-BREAK SPACE.
\<close>

definition js_whitespace :: "char \<Rightarrow> bool" where
  "js_whitespace c =
     (c \<in> set [CHR 0x09, CHR 0x0A, CHR 0x0B, CHR 0x0C, CHR 0x0D, CHR 0x20, CHR 0xA0])"

definition trim :: "string \<Rightarrow> string" where
  "trim s = rev (dropWhile js_whitespace (rev (dropWhile js_whitespace s)))"

text \<open>\<^verbatim>\<open>handleSubmit\<close>: a non-empty string is truthy. The promise \<^verbatim>\<open>onAsk\<close> returns is
  dropped.\<close>

definition handleSubmit :: "(string, 'w) callback \<Rightarrow> bool \<Rightarrow> string \<Rightarrow> 'w \<Rightarrow> 'w" where
  "handleSubmit onAsk isLoading question w =
     (if trim question \<noteq> [] \<and> \<not> isLoading then snd (onAsk (trim question) w) else w)"

record key_event =
  key :: string
  shiftKey :: bool

definition handleKeyDown ::
  "(string, 'w) callback \<Rightarrow> bool \<Rightarrow> string \<Rightarrow> key_event \<Rightarrow> 'w \<Rightarrow> 'w" where
  "handleKeyDown onAsk isLoading question e w =
     (if key e = ''Enter'' \<and> \<not> shiftKey e then handleSubmit onAsk isLoading question w
      else w)"

text \<open>The \<^verbatim>\<open>disabled\<close> attribute of the Ask button.\<close>

definition ask_button_disabled :: "bool \<Rightarrow> string \<Rightarrow> bool" where
  "ask_button_disabled isLoading question = (trim question = [] \<or> isLoading)"

text \<open>An event list in which every file chosen through the dialog is a PDF.\<close>

fun dialog_only_pdf :: "pdfupload_event \<Rightarrow> bool" where
  "dialog_only_pdf (FileChange fs) = list_all is_pdf fs"
| "dialog_only_pdf _ = True"

text \<open>Two concrete files for the examples.\<close>

definition ex_pdf :: js_file where
  "ex_pdf = \<lparr>file_name = ''a.pdf'', file_type = ''application/pdf'', file_size = 10\<rparr>"

definition ex_txt :: js_file where
  "ex_txt = \<lparr>file_name = ''notes.txt'', file_type = ''text/plain'', file_size = 3\<rparr>"

section \<open>JavaScript values\<close>

text \<open>
  The values that travel through the client: what \<^verbatim>\<open>response.json()\<close> yields and what the
  state cells hold. The numbers are the safe integers, \<open>JNum n\<close> for an integer \<open>n\<close> of
  magnitude below \<open>2^53\<close>; fractions are not represented. An object is the list of its
  properties, keys distinct.
\<close>

datatype jsval =
    JUndefined
  | JNull
  | JBool bool
  | JNum int
  | JStr string
  | JArr "jsval list"
  | JObj "(string \<times> jsval) list"

definition nullish :: "jsval \<Rightarrow> bool" where
  "nullish v = (v = JNull \<or> v = JUndefined)"

text \<open>Truthiness, as \<^verbatim>\<open>!x\<close> and \<^verbatim>\<open>x && y\<close> read it.\<close>

fun truthy :: "jsval \<Rightarrow> bool" where
  "truthy JUndefined = False"
| "truthy JNull = False"
| "truthy (JBool b) = b"
| "truthy (JNum n) = (n \<noteq> 0)"
| "truthy (JStr s) = (s \<noteq> [])"
| "truthy (JArr _) = True"
| "truthy (JObj _) = True"

text \<open>
  \<open>own_prop v k\<close> is \<^verbatim>\<open>v.k\<close> for a value \<open>v\<close> that is neither null nor undefined and a key
  that no prototype defines (the client reads \<^verbatim>\<open>status\<close>, \<^verbatim>\<open>filename\<close>, \<^verbatim>\<open>chunks\<close>,
  \<^verbatim>\<open>message\<close>, \<^verbatim>\<open>answer\<close> and \<^verbatim>\<open>sources\<close>): a missing property reads as undefined and a
  primitive has none. \<open>get_prop\<close> adds the TypeError of a read on null or undefined; the
  message is worded as V8 words it.
\<close>

fun own_prop :: "jsval \<Rightarrow> string \<Rightarrow> jsval" where
  "own_prop (JObj kvs) k = (case map_of kvs k of None \<Rightarrow> JUndefined | Some v \<Rightarrow> v)"
| "own_prop _ k = JUndefined"

definition cannot_read :: "jsval \<Rightarrow> string \<Rightarrow> js_error" where
  "cannot_read v k =
     TypeError (''Cannot read properties of '' @ (if v = JNull then ''null'' else ''undefined'')
                @ '' (reading '' @ [CHR 0x27] @ k @ [CHR 0x27] @ '')'')"

definition get_prop :: "jsval \<Rightarrow> string \<Rightarrow> js_error + jsval" where
  "get_prop v k = (if nullish v then Inl (cannot_read v k) else Inr (own_prop v k))"

text \<open>Decimal digits of a natural number and of an integer, as \<^verbatim>\<open>String(n)\<close> prints them.\<close>

definition digit_char :: "nat \<Rightarrow> char" where
  "digit_char d = ''0123456789'' ! d"

function show_nat :: "nat \<Rightarrow> string" where
  "show_nat n = (if n < 10 then [digit_char n] else show_nat (n div 10) @ [digit_char (n mod 10)])"
  by pat_completeness auto
termination
  by (relation "measure (\<lambda>n. n)") auto

declare show_nat.simps [simp del]

definition show_int :: "int \<Rightarrow> string" where
  "show_int i = (if i < 0 then CHR ''-'' # show_nat (nat (- i)) else show_nat (nat i))"

text \<open>\<open>join\<close> is \<^verbatim>\<open>Array.prototype.join\<close> on strings.\<close>

fun join :: "string \<Rightarrow> string list \<Rightarrow> string" where
  "join sep [] = []"
| "join sep [x] = x"
| "join sep (x # y # ys) = x @ sep @ join sep (y # ys)"

text \<open>
  A safe integer (\<^verbatim>\<open>Number.isSafeInteger\<close>) is of magnitude below \<open>2^53\<close>, and JavaScript prints
  it in plain decimal. What it prints for an integer beyond that range (the digits of the
  nearest double, in exponent form from \<open>1e21\<close>) is not modelled:
  \<open>number_text_beyond_safe\<close> is left unspecified, so that nothing is stated about such a
  text.
\<close>

definition safe_integer :: "int \<Rightarrow> bool" where
  "safe_integer n = (\<bar>n\<bar> < 9007199254740992)"

definition number_text_beyond_safe :: "int \<Rightarrow> string" where
  "number_text_beyond_safe = undefined"

text \<open>
  \<open>to_string\<close> is the conversion a template literal applies to \<^verbatim>\<open>${v}\<close>. An array prints
  its elements separated by commas, null and undefined elements as the empty string.
\<close>

fun to_string :: "jsval \<Rightarrow> string" where
  "to_string JUndefined = ''undefined''"
| "to_string JNull = ''null''"
| "to_string (JBool b) = (if b then ''true'' else ''false'')"
| "to_string (JNum n) = (if safe_integer n then show_int n else number_text_beyond_safe n)"
| "to_string (JStr s) = s"
| "to_string (JArr xs) = join '','' (map (\<lambda>x. if nullish x then [] else to_string x) xs)"
| "to_string (JObj _) = ''[object Object]''"

text \<open>
  \<open>iterate v\<close> is what \<^verbatim>\<open>for (const x of v)\<close> runs over: the elements of an array, the
  characters of a string, and a TypeError for every other value.
\<close>

fun iterate :: "string \<Rightarrow> jsval \<Rightarrow> js_error + jsval list" where
  "iterate name (JArr xs) = Inr xs"
| "iterate name (JStr s) = Inr (map (\<lambda>c. JStr [c]) s)"
| "iterate name _ = Inl (TypeError (name @ '' is not iterable''))"

section \<open>The network\<close>

text \<open>
  A request as \<^verbatim>\<open>fetch(url, init)\<close> receives it. A \<^verbatim>\<open>FormData\<close> body is the list of its
  entries in the order of the \<^verbatim>\<open>append\<close> calls; \<open>JsonText v\<close> is the text
  \<^verbatim>\<open>JSON.stringify(v)\<close>, represented by the value it serialises.
\<close>

datatype form_value = FormFile js_file | FormString string

datatype req_body = NoBody | FormDataBody "(string \<times> form_value) list" | JsonText jsval

record request =
  req_url :: string
  req_method :: string
  req_headers :: "(string \<times> string) list"
  req_body :: req_body

text \<open>
  A response: the two fields the client reads and the outcome of \<^verbatim>\<open>response.json()\<close>, which
  rejects with a SyntaxError when the body is not JSON. \<^verbatim>\<open>fetch\<close> itself rejects (with a
  TypeError) when no response arrives at all, for instance while the server is down.
\<close>

record response =
  resp_ok :: bool
  resp_statusText :: string
  resp_json :: "js_error + jsval"

datatype fetch_outcome = Rejected js_error | Resolved response

text \<open>
  The server is a parameter: it answers a request knowing the requests made before. The
  world the API module acts on is the list of the requests made so far, and \<open>fetch\<close> is
  the one function that extends it.
\<close>

type_synonym server = "request list \<Rightarrow> request \<Rightarrow> fetch_outcome"

definition fetch :: "server \<Rightarrow> request \<Rightarrow> request list \<Rightarrow> fetch_outcome \<times> request list" where
  "fetch srv req log = (srv log req, log @ [req])"

text \<open>\<^verbatim>\<open>fetch(url)\<close> without an init object: a GET without headers or body.\<close>

definition get_request :: "string \<Rightarrow> request" where
  "get_request url = \<lparr>req_url = url, req_method = ''GET'', req_headers = [], req_body = NoBody\<rparr>"

section \<open>The API service module\<close>

definition API_BASE_URL :: string where
  "API_BASE_URL = ''http://localhost:8000''"

definition uploadPDFs ::
  "server \<Rightarrow> js_file list \<Rightarrow> request list \<Rightarrow> (js_error + jsval) \<times> request list" where
  "uploadPDFs srv files log =
     (let formData = map (\<lambda>file. (''files'', FormFile file)) files
      in case fetch srv \<lparr>req_url = API_BASE_URL @ ''/upload-pdfs'', req_method = ''POST'',
                         req_headers = [], req_body = FormDataBody formData\<rparr> log of
           (Rejected e, log') \<Rightarrow> (Inl e, log')
         | (Resolved response, log') \<Rightarrow>
             if \<not> resp_ok response
             then (Inl (Error (''Upload failed: '' @ resp_statusText response)), log')
             else (resp_json response, log'))"

definition handleDuplicate ::
  "server \<Rightarrow> js_file \<Rightarrow> string \<Rightarrow> request list \<Rightarrow> (js_error + jsval) \<times> request list" where
  "handleDuplicate srv file action log =
     (let formData = [(''file'', FormFile file), (''action'', FormString action)]
      in case fetch srv \<lparr>req_url = API_BASE_URL @ ''/handle-duplicate'', req_method = ''POST'',
                         req_headers = [], req_body = FormDataBody formData\<rparr> log of
           (Rejected e, log') \<Rightarrow> (Inl e, log')
         | (Resolved response, log') \<Rightarrow>
             if \<not> resp_ok response
             then (Inl (Error (''Failed to handle duplicate: '' @ resp_statusText response)), log')
             else (resp_json response, log'))"

text \<open>\<^verbatim>\<open>askQuestion(question, topK = 5)\<close>: \<open>None\<close> is the call without a second argument.\<close>

definition askQuestion ::
  "server \<Rightarrow> string \<Rightarrow> int option \<Rightarrow> request list \<Rightarrow> (js_error + jsval) \<times> request list" where
  "askQuestion srv question topK_arg log =
     (let topK = (case topK_arg of None \<Rightarrow> 5 | Some k \<Rightarrow> k)
      in case fetch srv \<lparr>req_url = API_BASE_URL @ ''/ask'', req_method = ''POST'',
                         req_headers = [(''Content-Type'', ''application/json'')],
                         req_body = JsonText (JObj [(''question'', JStr question),
                                                    (''top_k'', JNum topK)])\<rparr> log of
           (Rejected e, log') \<Rightarrow> (Inl e, log')
         | (Resolved response, log') \<Rightarrow>
             if \<not> resp_ok response
             then (Inl (Error (''Failed to get answer: '' @ resp_statusText response)), log')
             else (resp_json response, log'))"

definition getDocuments :: "server \<Rightarrow> request list \<Rightarrow> (js_error + jsval) \<times> request list" where
  "getDocuments srv log =
     (case fetch srv (get_request (API_BASE_URL @ ''/documents'')) log of
        (Rejected e, log') \<Rightarrow> (Inl e, log')
      | (Resolved response, log') \<Rightarrow>
          if \<not> resp_ok response
          then (Inl (Error (''Failed to get documents: '' @ resp_statusText response)), log')
          else (resp_json response, log'))"

definition deleteDocument ::
  "server \<Rightarrow> jsval \<Rightarrow> request list \<Rightarrow> (js_error + jsval) \<times> request list" where
  "deleteDocument srv docId log =
     (case fetch srv \<lparr>req_url = API_BASE_URL @ ''/documents/'' @ to_string docId,
                      req_method = ''DELETE'', req_headers = [], req_body = NoBody\<rparr> log of
        (Rejected e, log') \<Rightarrow> (Inl e, log')
      | (Resolved response, log') \<Rightarrow>
          if \<not> resp_ok response
          then (Inl (Error (''Failed to delete document: '' @ resp_statusText response)), log')
          else (resp_json response, log'))"

definition getStats :: "server \<Rightarrow> request list \<Rightarrow> (js_error + jsval) \<times> request list" where
  "getStats srv log =
     (case fetch srv (get_request (API_BASE_URL @ ''/stats'')) log of
        (Rejected e, log') \<Rightarrow> (Inl e, log')
      | (Resolved response, log') \<Rightarrow>
          if \<not> resp_ok response
          then (Inl (Error (''Failed to get stats: '' @ resp_statusText response)), log')
          else (resp_json response, log'))"

definition healthCheck :: "server \<Rightarrow> request list \<Rightarrow> (js_error + jsval) \<times> request list" where
  "healthCheck srv log =
     (case fetch srv (get_request (API_BASE_URL @ ''/health'')) log of
        (Rejected e, log') \<Rightarrow> (Inl e, log')
      | (Resolved response, log') \<Rightarrow>
          if \<not> resp_ok response
          then (Inl (Error (''Backend is not healthy: '' @ resp_statusText response)), log')
          else (resp_json response, log'))"

section \<open>The App component\<close>

record toast =
  toast_id :: int
  toast_message :: jsval
  toast_type :: string

text \<open>The cell \<^verbatim>\<open>pendingFile\<close> holds null, a \<^verbatim>\<open>File\<close>, or the undefined that
  \<^verbatim>\<open>Array.prototype.find\<close> returns when no element matches.\<close>

datatype maybe_file = FNull | FUndefined | FFile js_file

text \<open>
  The \<^verbatim>\<open>useState\<close> cells of \<^verbatim>\<open>App\<close>, followed by the two parts of the outside world its
  handlers touch: the requests made so far and the number of times \<^verbatim>\<open>Date.now()\<close> has been
  read. The clock is a parameter \<open>clock\<close>: the \<open>n\<close>-th read of \<^verbatim>\<open>Date.now()\<close> returns
  \<open>clock n\<close>. The second copy of \<^verbatim>\<open>App.jsx\<close> among the sources has three more cells
  (\<^verbatim>\<open>healthLog\<close>, \<^verbatim>\<open>showDocuments\<close>, \<^verbatim>\<open>showStats\<close>), which none of the handlers below reads
  or writes; its handlers are the same.
\<close>

record app =
  documents :: jsval
  stats :: jsval
  isUploading :: bool
  isAsking :: bool
  isDeleting :: bool
  answer :: jsval
  sources :: jsval
  backendConnected :: bool
  duplicateInfo :: jsval
  pendingFile :: maybe_file
  toasts :: "toast list"
  requests :: "request list"
  date_reads :: nat

definition app_init :: app where
  "app_init = \<lparr>documents = JArr [], stats = JNull, isUploading = False, isAsking = False,
     isDeleting = False, answer = JStr [], sources = JArr [], backendConnected = False,
     duplicateInfo = JNull, pendingFile = FNull, toasts = [], requests = [], date_reads = 0\<rparr>"

definition addToast :: "(nat \<Rightarrow> int) \<Rightarrow> jsval \<Rightarrow> string \<Rightarrow> app \<Rightarrow> app" where
  "addToast clock message type s =
     (let id' = clock (date_reads s)
      in s\<lparr>toasts := toasts s @ [\<lparr>toast_id = id', toast_message = message, toast_type = type\<rparr>],
           date_reads := date_reads s + 1\<rparr>)"

definition removeToast :: "int \<Rightarrow> app \<Rightarrow> app" where
  "removeToast id' s = s\<lparr>toasts := filter (\<lambda>t. toast_id t \<noteq> id') (toasts s)\<rparr>"

text \<open>
  \<^verbatim>\<open>refreshData\<close>: both requests are issued, the one for the documents first, before
  \<^verbatim>\<open>Promise.all\<close> is awaited; when either fails the catch block only writes to the console.
\<close>

definition refreshData :: "server \<Rightarrow> app \<Rightarrow> app" where
  "refreshData srv s =
     (case getDocuments srv (requests s) of (r1, log1) \<Rightarrow>
      case getStats srv log1 of (r2, log2) \<Rightarrow>
        (case (r1, r2) of
           (Inr docs, Inr statsData) \<Rightarrow> s\<lparr>documents := docs, stats := statsData, requests := log2\<rparr>
         | _ \<Rightarrow> s\<lparr>requests := log2\<rparr>))"

text \<open>\<^verbatim>\<open>files.find(f => f.name === result.filename)\<close>: strict equality with a string holds
  for the same string only.\<close>

definition find_file :: "js_file list \<Rightarrow> jsval \<Rightarrow> maybe_file" where
  "find_file files filename =
     (case List.find (\<lambda>f. JStr (file_name f) = filename) files of
        None \<Rightarrow> FUndefined
      | Some f \<Rightarrow> FFile f)"

text \<open>
  The body of the loop over the upload results, on the two counters and the state. The
  read of \<^verbatim>\<open>result.status\<close> comes first and throws on null and undefined, before anything
  has changed.
\<close>

definition upload_result_step ::
  "(nat \<Rightarrow> int) \<Rightarrow> js_file list \<Rightarrow> jsval \<Rightarrow> nat \<times> nat \<times> app \<Rightarrow> js_error + nat \<times> nat \<times> app"
where
  "upload_result_step clock files result acc =
     (case acc of (successCount, duplicateCount, s) \<Rightarrow>
        if nullish result then Inl (cannot_read result ''status'')
        else if own_prop result ''status'' = JStr ''success'' then
          Inr (successCount + 1, duplicateCount,
               addToast clock
                 (JStr (''Uploaded: '' @ to_string (own_prop result ''filename'') @ '' (''
                        @ to_string (own_prop result ''chunks'') @ '' chunks)''))
                 ''success'' s)
        else if own_prop result ''status'' = JStr ''duplicate'' then
          Inr (successCount, duplicateCount + 1,
               s\<lparr>duplicateInfo := result,
                 pendingFile := find_file files (own_prop result ''filename'')\<rparr>)
        else if own_prop result ''status'' = JStr ''error'' then
          Inr (successCount, duplicateCount,
               addToast clock
                 (JStr (''Error: '' @ to_string (own_prop result ''filename'') @ '' - ''
                        @ to_string (own_prop result ''message'')))
                 ''error'' s)
        else Inr acc)"

text \<open>The loop. A throw leaves it with the updates made so far in place.\<close>

fun upload_loop ::
  "(nat \<Rightarrow> int) \<Rightarrow> js_file list \<Rightarrow> jsval list \<Rightarrow> nat \<times> nat \<times> app
     \<Rightarrow> js_error option \<times> nat \<times> nat \<times> app"
where
  "upload_loop clock files [] acc = (None, acc)"
| "upload_loop clock files (result # rest) acc =
     (case upload_result_step clock files result acc of
        Inl e \<Rightarrow> (Some e, acc)
      | Inr acc' \<Rightarrow> upload_loop clock files rest acc')"

definition App_handleUpload :: "server \<Rightarrow> (nat \<Rightarrow> int) \<Rightarrow> js_file list \<Rightarrow> app \<Rightarrow> app" where
  "App_handleUpload srv clock files s =
     (let s1 = s\<lparr>isUploading := True\<rparr>;
          catch = (\<lambda>error st.
             addToast clock (JStr (''Upload failed: '' @ error_message error)) ''error'' st);
          s2 =
            (case uploadPDFs srv files (requests s1) of
               (Inl e, log) \<Rightarrow> catch e (s1\<lparr>requests := log\<rparr>)
             | (Inr results, log) \<Rightarrow>
                 (case iterate ''results'' results of
                    Inl e \<Rightarrow> catch e (s1\<lparr>requests := log\<rparr>)
                  | Inr rs \<Rightarrow>
                      (case upload_loop clock files rs (0, 0, s1\<lparr>requests := log\<rparr>) of
                         (Some e, _, _, s3) \<Rightarrow> catch e s3
                       | (None, successCount, duplicateCount, s3) \<Rightarrow>
                           (let s4 = (if successCount > 0 then refreshData srv s3 else s3)
                            in if duplicateCount = 0
                               then addToast clock
                                      (JStr (''Upload complete: '' @ show_nat successCount
                                             @ '' files processed'')) ''success'' s4
                               else s4))))
      in s2\<lparr>isUploading := False\<rparr>)"

text \<open>
  \<^verbatim>\<open>handleDuplicateAction\<close>. A \<^verbatim>\<open>File\<close> is truthy, so the guard \<^verbatim>\<open>if (!pendingFile) return\<close>
  leaves exactly when the cell holds null or undefined.
\<close>

definition handleDuplicateAction :: "server \<Rightarrow> (nat \<Rightarrow> int) \<Rightarrow> string \<Rightarrow> app \<Rightarrow> app" where
  "handleDuplicateAction srv clock action s =
     (case pendingFile s of
        FNull \<Rightarrow> s
      | FUndefined \<Rightarrow> s
      | FFile file \<Rightarrow>
          (let s1 = s\<lparr>isUploading := True\<rparr>;
               catch = (\<lambda>error st.
                  addToast clock (JStr (''Error: '' @ error_message error)) ''error'' st);
               s2 =
                 (case handleDuplicate srv file action (requests s1) of
                    (Inl e, log) \<Rightarrow> catch e (s1\<lparr>requests := log\<rparr>)
                  | (Inr result, log) \<Rightarrow>
                      if nullish result
                      then catch (cannot_read result ''status'') (s1\<lparr>requests := log\<rparr>)
                      else if own_prop result ''status'' = JStr ''success''
                      then refreshData srv
                             (addToast clock (own_prop result ''message'') ''success''
                                (s1\<lparr>requests := log\<rparr>))
                      else if own_prop result ''status'' = JStr ''cancelled''
                      then addToast clock (JStr ''Upload cancelled'') ''info'' (s1\<lparr>requests := log\<rparr>)
                      else addToast clock (own_prop result ''message'') ''error''
                             (s1\<lparr>requests := log\<rparr>))
           in s2\<lparr>duplicateInfo := JNull, pendingFile := FNull, isUploading := False\<rparr>))"

text \<open>\<^verbatim>\<open>handleAsk\<close> calls \<^verbatim>\<open>api.askQuestion(question)\<close>, without a second argument.\<close>

definition handleAsk :: "server \<Rightarrow> (nat \<Rightarrow> int) \<Rightarrow> string \<Rightarrow> app \<Rightarrow> app" where
  "handleAsk srv clock question s =
     (let s1 = s\<lparr>isAsking := True, answer := JStr [], sources := JArr []\<rparr>;
          catch = (\<lambda>error st.
             addToast clock (JStr (''Error: '' @ error_message error)) ''error'' st);
          s2 =
            (case askQuestion srv question None (requests s1) of
               (Inl e, log) \<Rightarrow> catch e (s1\<lparr>requests := log\<rparr>)
             | (Inr result, log) \<Rightarrow>
                 if nullish result
                 then catch (cannot_read result ''answer'') (s1\<lparr>requests := log\<rparr>)
                 else s1\<lparr>answer := own_prop result ''answer'',
                        sources := own_prop result ''sources'', requests := log\<rparr>)
      in s2\<lparr>isAsking := False\<rparr>)"

section \<open>The DuplicateModal component\<close>

text \<open>
  What the modal renders, as far as actions go: nothing while \<^verbatim>\<open>duplicateInfo\<close> is falsy,
  and otherwise its three buttons in document order, each with the string its
  \<^verbatim>\<open>onClick\<close> passes to \<^verbatim>\<open>onAction\<close> and its \<^verbatim>\<open>disabled\<close> attribute.
\<close>

record button =
  btn_className :: string
  btn_action :: string
  btn_disabled :: bool

definition DuplicateModal :: "jsval \<Rightarrow> bool \<Rightarrow> button list option" where
  "DuplicateModal duplicateInfo' isLoading =
     (if \<not> truthy duplicateInfo' then None
      else Some
        [\<lparr>btn_className = ''btn btn-secondary'', btn_action = ''use_existing'',
           btn_disabled = isLoading\<rparr>,
         \<lparr>btn_className = ''btn btn-warning'', btn_action = ''replace'',
           btn_disabled = isLoading\<rparr>,
         \<lparr>btn_className = ''btn btn-danger'', btn_action = ''cancel'',
           btn_disabled = isLoading\<rparr>])"

text \<open>A click on a button: a disabled button fires no click event.\<close>

definition click :: "(string, 'w) callback \<Rightarrow> button \<Rightarrow> 'w \<Rightarrow> 'w" where
  "click onAction b w = (if btn_disabled b then w else snd (onAction (btn_action b) w))"

text \<open>\<^verbatim>\<open>App\<close> passes \<^verbatim>\<open>handleDuplicateAction\<close> as \<^verbatim>\<open>onAction\<close>; its promise always resolves.\<close>

definition onAction_of_App :: "server \<Rightarrow> (nat \<Rightarrow> int) \<Rightarrow> (string, app) callback" where
  "onAction_of_App srv clock action s = (Inr (), handleDuplicateAction srv clock action s)"

text \<open>The field \<open>k\<close> of a \<^verbatim>\<open>FormData\<close> body, as \<^verbatim>\<open>FormData.get\<close> reads it.\<close>

definition form_get :: "req_body \<Rightarrow> string \<Rightarrow> form_value option" where
  "form_get body k = (case body of FormDataBody entries \<Rightarrow> map_of entries k | _ \<Rightarrow> None)"

section \<open>Auxiliary notions for the properties\<close>

text \<open>A result the loop of \<^verbatim>\<open>handleUpload\<close> treats as a duplicate.\<close>

definition is_duplicate :: "jsval \<Rightarrow> bool" where
  "is_duplicate result = (own_prop result ''status'' = JStr ''duplicate'')"

text \<open>The results the loop of \<^verbatim>\<open>handleUpload\<close> gets through: those before the first null
  or undefined one, where the read of \<^verbatim>\<open>result.status\<close> throws.\<close>

definition processed :: "jsval list \<Rightarrow> jsval list" where
  "processed rs = takeWhile (\<lambda>r. \<not> nullish r) rs"

text \<open>The content of the single slot after a run over \<open>rs\<close> from the slot \<open>(d, p)\<close>.\<close>

definition slot_after :: "js_file list \<Rightarrow> jsval list \<Rightarrow> jsval \<times> maybe_file \<Rightarrow> jsval \<times> maybe_file" where
  "slot_after files rs slot =
     (case filter is_duplicate (processed rs) of
        [] \<Rightarrow> slot
      | d # ds \<Rightarrow> (last (d # ds), find_file files (own_prop (last (d # ds)) ''filename'')))"

text \<open>
  The classification of a result by its \<^verbatim>\<open>status\<close>, and the toasts, as pairs of message and
  type, that a result stands for: one for a success, one for an error, none otherwise.
\<close>

definition is_success :: "jsval \<Rightarrow> bool" where
  "is_success result = (own_prop result ''status'' = JStr ''success'')"

definition is_error :: "jsval \<Rightarrow> bool" where
  "is_error result = (own_prop result ''status'' = JStr ''error'')"

definition classified :: "jsval \<Rightarrow> bool" where
  "classified result = (is_success result \<or> is_duplicate result \<or> is_error result)"

definition result_toasts :: "jsval \<Rightarrow> (jsval \<times> string) list" where
  "result_toasts result =
     (if is_success result then
        [(JStr (''Uploaded: '' @ to_string (own_prop result ''filename'') @ '' (''
                @ to_string (own_prop result ''chunks'') @ '' chunks)''), ''success'')]
      else if is_error result then
        [(JStr (''Error: '' @ to_string (own_prop result ''filename'') @ '' - ''
                @ to_string (own_prop result ''message'')), ''error'')]
      else [])"

text \<open>Toasts for a list of messages, their ids read from the clock one after the other,
  starting with read number \<open>n\<close>.\<close>

fun stamp :: "(nat \<Rightarrow> int) \<Rightarrow> nat \<Rightarrow> (jsval \<times> string) list \<Rightarrow> toast list" where
  "stamp clock n [] = []"
| "stamp clock n ((m, ty) # ms) =
     \<lparr>toast_id = clock n, toast_message = m, toast_type = ty\<rparr> # stamp clock (Suc n) ms"

text \<open>The error the loop over \<open>rs\<close> throws, if any: that of the first null or undefined
  result.\<close>

definition thrown :: "jsval list \<Rightarrow> js_error option" where
  "thrown rs =
     (case dropWhile (\<lambda>r. \<not> nullish r) rs of
        [] \<Rightarrow> None
      | r # _ \<Rightarrow> Some (cannot_read r ''status''))"

text \<open>The state after the loop over \<open>rs\<close>, without the loop: the slot, and one toast for
  every success and every error among the results the loop gets through, in their
  order.\<close>

definition after_results :: "(nat \<Rightarrow> int) \<Rightarrow> js_file list \<Rightarrow> jsval list \<Rightarrow> app \<Rightarrow> app" where
  "after_results clock files rs s =
     s\<lparr>duplicateInfo := fst (slot_after files rs (duplicateInfo s, pendingFile s)),
       pendingFile := snd (slot_after files rs (duplicateInfo s, pendingFile s)),
       toasts := toasts s @ stamp clock (date_reads s) (concat (map result_toasts (processed rs))),
       date_reads := date_reads s + length (concat (map result_toasts (processed rs)))\<rparr>"

text \<open>The request \<^verbatim>\<open>uploadPDFs\<close> sends for a list of files.\<close>

definition upload_request :: "js_file list \<Rightarrow> request" where
  "upload_request files =
     \<lparr>req_url = API_BASE_URL @ ''/upload-pdfs'', req_method = ''POST'', req_headers = [],
      req_body = FormDataBody (map (\<lambda>file. (''files'', FormFile file)) files)\<rparr>"

text \<open>
  What \<^verbatim>\<open>handleUpload\<close> leaves when the upload has returned the results \<open>rs\<close>, without the
  loop and its counters: the state after the results; then the failure toast if the loop
  threw, and otherwise the refresh if there was a success and the completion toast, with
  the number of successes, if there was no duplicate; and \<^verbatim>\<open>isUploading\<close> false.
\<close>

definition handleUpload_outcome ::
  "server \<Rightarrow> (nat \<Rightarrow> int) \<Rightarrow> js_file list \<Rightarrow> jsval list \<Rightarrow> app \<Rightarrow> app" where
  "handleUpload_outcome srv clock files rs s =
     (let s1 = after_results clock files rs (s\<lparr>requests := requests s @ [upload_request files]\<rparr>);
          successes = filter is_success (processed rs);
          s2 = (case thrown rs of
                  Some e \<Rightarrow>
                    addToast clock (JStr (''Upload failed: '' @ error_message e)) ''error'' s1
                | None \<Rightarrow>
                    (let s3 = (if successes \<noteq> [] then refreshData srv s1 else s1)
                     in if filter is_duplicate (processed rs) = []
                        then addToast clock
                               (JStr (''Upload complete: '' @ show_nat (length successes)
                                      @ '' files processed'')) ''success'' s3
                        else s3))
      in s2\<lparr>isUploading := False\<rparr>)"

text \<open>
  What one call of an API function amounts to: one \<^verbatim>\<open>fetch\<close> of the request \<open>req\<close>; the
  rejection of \<^verbatim>\<open>fetch\<close> passed on; for a response that is not ok an \<^verbatim>\<open>Error\<close> of the
  function's message followed by the status text; and otherwise the outcome of
  \<^verbatim>\<open>response.json()\<close>.
\<close>

definition single_request ::
  "string \<Rightarrow> request \<Rightarrow> server \<Rightarrow> request list \<Rightarrow> (js_error + jsval) \<times> request list" where
  "single_request message req srv log =
     (case srv log req of
        Rejected e \<Rightarrow> Inl e
      | Resolved response \<Rightarrow>
          if resp_ok response then resp_json response
          else Inl (Error (message @ resp_statusText response)),
      log @ [req])"

text \<open>The request \<^verbatim>\<open>handleDuplicate\<close> sends for a file and an action.\<close>

definition duplicate_request :: "js_file \<Rightarrow> string \<Rightarrow> request" where
  "duplicate_request file action =
     \<lparr>req_url = API_BASE_URL @ ''/handle-duplicate'', req_method = ''POST'', req_headers = [],
      req_body = FormDataBody [(''file'', FormFile file), (''action'', FormString action)]\<rparr>"

text \<open>The request \<^verbatim>\<open>askQuestion\<close> sends for a question and a value of \<^verbatim>\<open>top_k\<close>.\<close>

definition ask_request :: "string \<Rightarrow> int \<Rightarrow> request" where
  "ask_request question k =
     \<lparr>req_url = API_BASE_URL @ ''/ask'', req_method = ''POST'',
      req_headers = [(''Content-Type'', ''application/json'')],
      req_body = JsonText (JObj [(''question'', JStr question), (''top_k'', JNum k)])\<rparr>"

section \<open>Concrete servers and states for the examples\<close>

definition ok_response :: "jsval \<Rightarrow> response" where
  "ok_response v = \<lparr>resp_ok = True, resp_statusText = ''OK'', resp_json = Inr v\<rparr>"

text \<open>A server that reports every upload as a duplicate of \<^verbatim>\<open>a.pdf\<close> and confirms a
  cancellation.\<close>

definition ex_server :: server where
  "ex_server log req =
     (if req_url req = API_BASE_URL @ ''/upload-pdfs''
      then Resolved (ok_response (JArr [JObj [(''status'', JStr ''duplicate''),
                                               (''filename'', JStr ''a.pdf''),
                                               (''existing_filename'', JStr ''a.pdf'')]]))
      else if req_url req = API_BASE_URL @ ''/handle-duplicate''
      then Resolved (ok_response (JObj [(''status'', JStr ''cancelled'')]))
      else Rejected (TypeError ''Failed to fetch''))"

text \<open>A server that reports the duplicate under a name no uploaded file has.\<close>

definition ex_server_renaming :: server where
  "ex_server_renaming log req =
     Resolved (ok_response (JArr [JObj [(''status'', JStr ''duplicate''),
                                        (''filename'', JStr ''a_1.pdf'')]]))"

text \<open>A server behind which every answer is an HTML page with status 200, and one that
  is down.\<close>

definition ex_server_html :: server where
  "ex_server_html log req =
     Resolved \<lparr>resp_ok = True, resp_statusText = ''OK'',
               resp_json = Inl (SyntaxError ''Unexpected token < in JSON at position 0'')\<rparr>"

definition ex_server_down :: server where
  "ex_server_down log req = Rejected (TypeError ''Failed to fetch'')"

definition ex_clock :: "nat \<Rightarrow> int" where
  "ex_clock n = 1700000000000 + int n"


definition ex_success :: "(string \<times> jsval) list" where
  "ex_success = [(''status'', JStr ''success''), (''filename'', JStr ''a.pdf''),
                 (''chunks'', JNum 12), (''pages'', JNum 3)]"

definition ex_duplicate_a :: "(string \<times> jsval) list" where
  "ex_duplicate_a = [(''status'', JStr ''duplicate''), (''filename'', JStr ''a.pdf'')]"

definition ex_duplicate_b :: "(string \<times> jsval) list" where
  "ex_duplicate_b = [(''status'', JStr ''duplicate''), (''filename'', JStr ''b.pdf'')]"

definition ex_error :: "(string \<times> jsval) list" where
  "ex_error = [(''status'', JStr ''error''), (''filename'', JStr ''a.pdf''),
               (''message'', JStr ''no text'')]"

definition ex_other :: "(string \<times> jsval) list" where
  "ex_other = [(''status'', JStr ''processing''), (''filename'', JStr ''a.pdf'')]"

definition ex_server_two :: server where
  "ex_server_two log req =
     Resolved (ok_response (JArr [JObj ex_duplicate_a, JObj ex_other, JObj ex_duplicate_b]))"

text \<open>A server that answers an upload with one result of each kind and is down for every
  other request.\<close>

definition ex_server_mixed :: server where
  "ex_server_mixed log req =
     (if req_url req = API_BASE_URL @ ''/upload-pdfs''
      then Resolved (ok_response (JArr [JObj ex_success, JObj ex_other, JObj ex_duplicate_a,
                                        JObj ex_error]))
      else Rejected (TypeError ''Failed to fetch''))"

definition ex_server_error :: server where
  "ex_server_error log req =
     Resolved \<lparr>resp_ok = False, resp_statusText = ''Internal Server Error'',
               resp_json = Inr JNull\<rparr>"

chapter \<open>The ingestion core, from the specification\<close>

text \<open>
  The service behind the client (the registry, the chunk store, the vector index and the
  ingestion pipeline) is not among the sources. What follows is modelled from sections
  3, 4.1 to 4.4 and 4.6 of the specification. The collaborators are parameters: the digest,
  the embedding model (which may fail) and the clock. Vectors are of an arbitrary
  type \<open>'v\<close>.
\<close>

text \<open>Modelled from the spec: the Document of section 3.\<close>

record document =
  doc_id :: nat
  filename :: string
  content_hash :: string
  upload_timestamp :: nat
  num_pages :: nat
  num_chunks :: nat

text \<open>Modelled from the spec: the Chunk of section 3; its \<open>chunk_id\<close> is its position in
  the chunk store.\<close>

record chunk =
  chunk_text :: string
  source_doc_id :: nat
  page_number :: nat

text \<open>Modelled from the spec: the three stores of section 2 and the persisted layout of
  section 6. The chunk store and the vector index are co-indexed lists, and removed ids
  are tombstones.\<close>

record 'v stores =
  chunk_store :: "chunk list"
  vector_index :: "'v list"
  tombstones :: "nat list"
  registry :: "document list"

text \<open>Modelled from the spec: the owning context of section 9, that is the live stores,
  the durable snapshot of section 4.6 and the counter from which a \<open>doc_id\<close> is taken,
  so that none is reused.\<close>

record 'v backend =
  live :: "'v stores"
  durable :: "'v stores"
  next_doc_id :: nat

text \<open>Modelled from the spec: the collaborators of section 6 that ingestion consumes, and
  the configuration of the chunker (section 4.4, step 2).\<close>

record 'v collaborators =
  digest :: "nat list \<Rightarrow> string"
  embed :: "string list \<Rightarrow> 'v list option"
  now :: nat
  window_size :: nat
  window_overlap :: nat

text \<open>Modelled from the spec: \<^verbatim>\<open>DocumentRegistry.find_by_hash\<close> of section 4.3; the registry
  holds the current documents in insertion order.\<close>

definition find_by_hash :: "string \<Rightarrow> document list \<Rightarrow> document option" where
  "find_by_hash h reg = List.find (\<lambda>d. content_hash d = h) reg"

text \<open>Modelled from the spec: white space, for "chunks with only whitespace are dropped"
  and for the words of a page.\<close>

definition spec_whitespace :: "char \<Rightarrow> bool" where
  "spec_whitespace c =
     (c \<in> set [CHR 0x09, CHR 0x0A, CHR 0x0B, CHR 0x0C, CHR 0x0D, CHR 0x20])"

text \<open>Modelled from the spec: the words of a page text, the maximal runs without white
  space.\<close>

function words_of :: "string \<Rightarrow> string list" where
  "words_of s =
     (case dropWhile spec_whitespace s of
        [] \<Rightarrow> []
      | c # cs \<Rightarrow> takeWhile (\<lambda>x. \<not> spec_whitespace x) (c # cs)
                 # words_of (dropWhile (\<lambda>x. \<not> spec_whitespace x) (c # cs)))"
  by pat_completeness auto
termination
proof (relation "measure length")
  show "wf (measure length)" by simp
next
  fix s :: string and c cs
  assume a: "dropWhile spec_whitespace s = c # cs"
  have "length (dropWhile (\<lambda>x. \<not> spec_whitespace x) (c # cs)) \<le> length (c # cs)"
    by (rule length_dropWhile_le)
  moreover have "\<not> spec_whitespace c" using a by (metis hd_dropWhile list.sel(1) list.distinct(1))
  ultimately have "length (dropWhile (\<lambda>x. \<not> spec_whitespace x) (c # cs)) < length (c # cs)"
    using length_dropWhile_le [of "\<lambda>x. \<not> spec_whitespace x" cs] by simp
  moreover have "length (c # cs) \<le> length s"
    using a length_dropWhile_le [of spec_whitespace s] by simp
  ultimately show "(dropWhile (\<lambda>x. \<not> spec_whitespace x) (c # cs), s) \<in> measure length"
    by simp
qed

declare words_of.simps [simp del]

text \<open>Modelled from the spec: fixed-size windows with overlap (section 4.4, step 2): a
  window of \<open>size\<close> words starts every \<open>size - overlap\<close> words. The specification fixes
  nothing for an overlap that is not below the size; no window is cut then.\<close>

function windows :: "nat \<Rightarrow> nat \<Rightarrow> 'a list \<Rightarrow> 'a list list" where
  "windows size' overlap ws =
     (if ws = [] \<or> size' \<le> overlap then []
      else take size' ws # windows size' overlap (drop (size' - overlap) ws))"
  by pat_completeness auto
termination
proof (relation "measure (\<lambda>(size', overlap, ws). length ws)")
  show "wf (measure (\<lambda>(size' :: nat, overlap :: nat, ws :: 'a list). length ws))" by simp
next
  fix size' overlap :: nat and ws :: "'a list"
  assume "\<not> (ws = [] \<or> size' \<le> overlap)"
  then have "0 < length ws" and "overlap < size'" by simp_all
  then have "length ws - (size' - overlap) < length ws" by arith
  then show "((size', overlap, drop (size' - overlap) ws), (size', overlap, ws))
               \<in> measure (\<lambda>(size', overlap, ws). length ws)"
    by simp
qed

declare windows.simps [simp del]

text \<open>Modelled from the spec: the chunks of the pages, each with its page number; a chunk
  is the text of a window, its words separated by single spaces, and a chunk of white
  space only is dropped.\<close>

definition chunk_page :: "nat \<Rightarrow> nat \<Rightarrow> nat \<times> string \<Rightarrow> (string \<times> nat) list" where
  "chunk_page size' overlap page =
     (case page of (page_no, page_text) \<Rightarrow>
        filter (\<lambda>(t, _). \<not> list_all spec_whitespace t)
          (map (\<lambda>w. (join '' '' w, page_no)) (windows size' overlap (words_of page_text))))"

definition chunk_pages :: "nat \<Rightarrow> nat \<Rightarrow> (nat \<times> string) list \<Rightarrow> (string \<times> nat) list" where
  "chunk_pages size' overlap pages = concat (map (chunk_page size' overlap) pages)"

text \<open>Modelled from the spec: the results of an upload (sections 4.4 and 6): success with
  file name, chunk count, page count and the \<open>empty\<close> flag; duplicate with the existing
  document; and the failure of the embedding collaborator.\<close>

datatype ingest_result =
    Success string nat nat bool
  | Duplicate document
  | IngestionFailed

text \<open>Modelled from the spec: the ingestion pipeline of section 4.4, steps 1 to 5, on a
  file name, the raw bytes and the extracted pages.\<close>

definition ingest ::
  "'v collaborators \<Rightarrow> string \<Rightarrow> nat list \<Rightarrow> (nat \<times> string) list \<Rightarrow> 'v backend
     \<Rightarrow> ingest_result \<times> 'v backend"
where
  "ingest c file_name' bytes pages st =
     (let h = digest c bytes
      in case find_by_hash h (registry (live st)) of
           Some existing \<Rightarrow> (Duplicate existing, st)
         | None \<Rightarrow>
             (let cs = chunk_pages (window_size c) (window_overlap c) pages
              in case embed c (map fst cs) of
                   None \<Rightarrow> (IngestionFailed, st)
                 | Some vectors \<Rightarrow>
                     (let doc = \<lparr>doc_id = next_doc_id st, filename = file_name',
                                 content_hash = h, upload_timestamp = now c,
                                 num_pages = length pages, num_chunks = length cs\<rparr>;
                          stores' = (live st)
                            \<lparr>chunk_store := chunk_store (live st) @
                               map (\<lambda>(t, p). \<lparr>chunk_text = t, source_doc_id = next_doc_id st,
                                               page_number = p\<rparr>) cs,
                             vector_index := vector_index (live st) @ vectors,
                             registry := registry (live st) @ [doc]\<rparr>
                      in (Success file_name' (length cs) (length pages) (cs = []),
                          \<lparr>live = stores', durable = stores',
                           next_doc_id = Suc (next_doc_id st)\<rparr>))))"

text \<open>Modelled from the spec: the invariant of section 3, \<open>content_hash\<close> is unique across
  the current documents.\<close>

definition hashes_unique :: "'v backend \<Rightarrow> bool" where
  "hashes_unique st = distinct (map content_hash (registry (live st)))"

text \<open>Modelled from the spec: the empty backend, and toy collaborators for the examples
  (the digest is the decimal sum of the bytes, an embedding is the length of the text).\<close>

definition backend_init :: "'v backend" where
  "backend_init =
     \<lparr>live = \<lparr>chunk_store = [], vector_index = [], tombstones = [], registry = []\<rparr>,
      durable = \<lparr>chunk_store = [], vector_index = [], tombstones = [], registry = []\<rparr>,
      next_doc_id = 0\<rparr>"

definition ex_collaborators :: "nat collaborators" where
  "ex_collaborators =
     \<lparr>digest = (\<lambda>bytes. show_nat (sum_list bytes)),
      embed = (\<lambda>texts. Some (map length texts)),
      now = 1700000000, window_size = 200, window_overlap = 50\<rparr>"

text \<open>The same collaborators with an embedding model that is down.\<close>

definition ex_collaborators_down :: "nat collaborators" where
  "ex_collaborators_down = ex_collaborators\<lparr>embed := (\<lambda>texts. None)\<rparr>"

definition ex_document :: document where
  "ex_document =
     \<lparr>doc_id = 0, filename = ''a.pdf'', content_hash = ''6'', upload_timestamp = 1700000000,
      num_pages = 1, num_chunks = 1\<rparr>"

definition ex_backend :: "nat backend" where
  "ex_backend =
     \<lparr>live = \<lparr>chunk_store = [\<lparr>chunk_text = ''hello world'', source_doc_id = 0, page_number = 1\<rparr>],
              vector_index = [11], tombstones = [], registry = [ex_document]\<rparr>,
      durable = \<lparr>chunk_store = [\<lparr>chunk_text = ''hello world'', source_doc_id = 0, page_number = 1\<rparr>],
              vector_index = [11], tombstones = [], registry = [ex_document]\<rparr>,
      next_doc_id = 1\<rparr>"

chapter \<open>Properties\<close>

section \<open>QuestionAnswer\<close>

text \<open>\<open>trim\<close> cuts a white-space prefix and a white-space suffix, and what is left neither
  starts nor ends with white space.\<close>

lemma rev_dropWhile_split:
  "xs = rev (dropWhile P (rev xs)) @ rev (takeWhile P (rev xs))"
proof -
  have "rev xs = takeWhile P (rev xs) @ dropWhile P (rev xs)" by simp
  then have "rev (rev xs) = rev (takeWhile P (rev xs) @ dropWhile P (rev xs))"
    by (rule arg_cong)
  then show ?thesis by (simp only: rev_rev_ident rev_append)
qed

lemma trim_decompose:
  "\<exists>pre post. s = pre @ trim s @ post \<and> list_all js_whitespace pre \<and> list_all js_whitespace post"
proof -
  define a where "a = takeWhile js_whitespace s"
  define r where "r = dropWhile js_whitespace s"
  define b where "b = takeWhile js_whitespace (rev r)"
  have 1: "s = a @ r" by (simp add: a_def r_def)
  have 2: "r = trim s @ rev b"
    unfolding trim_def b_def r_def by (rule rev_dropWhile_split)
  have 3: "list_all js_whitespace a"
    unfolding a_def list_all_iff by (meson set_takeWhileD)
  have "list_all js_whitespace b"
    unfolding b_def list_all_iff by (meson set_takeWhileD)
  then have 4: "list_all js_whitespace (rev b)" by (simp add: list_all_iff)
  from 1 2 have "s = a @ trim s @ rev b" by simp
  with 3 4 show ?thesis by blast
qed

lemma trim_no_leading: "trim s \<noteq> [] \<Longrightarrow> \<not> js_whitespace (hd (trim s))"
proof -
  assume ne: "trim s \<noteq> []"
  define r where "r = dropWhile js_whitespace s"
  define d where "d = dropWhile js_whitespace (rev r)"
  have t: "trim s = rev d" by (simp add: trim_def r_def d_def)
  with ne have dne: "d \<noteq> []" by simp
  have rne: "r \<noteq> []"
  proof
    assume "r = []"
    then have "d = []" unfolding d_def by simp
    with dne show False by simp
  qed
  have "\<not> js_whitespace (hd r)" using rne unfolding r_def by (rule hd_dropWhile)
  moreover have "hd (rev d) = hd r"
  proof -
    have "r = rev d @ rev (takeWhile js_whitespace (rev r))"
      unfolding d_def by (rule rev_dropWhile_split)
    then have "hd r = hd (rev d @ rev (takeWhile js_whitespace (rev r)))" by simp
    also have "\<dots> = hd (rev d)" using dne by simp
    finally show ?thesis by simp
  qed
  ultimately show ?thesis using t by simp
qed

lemma trim_no_trailing: "trim s \<noteq> [] \<Longrightarrow> \<not> js_whitespace (last (trim s))"
proof -
  assume ne: "trim s \<noteq> []"
  define d where "d = dropWhile js_whitespace (rev (dropWhile js_whitespace s))"
  have t: "trim s = rev d" by (simp add: trim_def d_def)
  with ne have dne: "d \<noteq> []" by simp
  then have "\<not> js_whitespace (hd d)" unfolding d_def by (rule hd_dropWhile)
  then show ?thesis using t dne by (simp add: last_rev)
qed

lemma trim_whitespace_only: "list_all js_whitespace s \<Longrightarrow> trim s = []"
proof -
  assume "list_all js_whitespace s"
  then have e: "dropWhile js_whitespace s = []" by (simp add: list_all_iff)
  show ?thesis unfolding trim_def e by simp
qed

lemma trim_ex1: "trim ''  hi there  '' = ''hi there''"
  by (simp add: trim_def js_whitespace_def)

text \<open>
  Claim C8. \<^verbatim>\<open>onAsk\<close> is invoked (by the form's submit and by Enter without Shift) exactly
  when the trimmed question is non-empty and no ask is in flight; its argument is the
  trimmed question, which is the question without a white-space prefix and suffix and
  neither starts nor ends with white space; a question of white space only (the empty
  one included) performs no call; and the Ask button is disabled exactly when a submit
  would perform no call.
\<close>

theorem questionAnswer_asks_trimmed_nonempty:
  "fst (handleSubmit (logged cb) isLoading question (log, w)) =
     (if trim question \<noteq> [] \<and> \<not> isLoading then log @ [trim question] else log)
   \<and> fst (handleKeyDown (logged cb) isLoading question e (log, w)) =
     (if key e = ''Enter'' \<and> \<not> shiftKey e \<and> trim question \<noteq> [] \<and> \<not> isLoading
      then log @ [trim question] else log)
   \<and> ask_button_disabled isLoading question =
       (fst (handleSubmit (logged cb) isLoading question (log, w)) = log)
   \<and> (\<exists>pre post. question = pre @ trim question @ post
         \<and> list_all js_whitespace pre \<and> list_all js_whitespace post)
   \<and> (trim question \<noteq> [] \<longrightarrow>
         \<not> js_whitespace (hd (trim question)) \<and> \<not> js_whitespace (last (trim question)))
   \<and> (list_all js_whitespace question \<longrightarrow>
         handleSubmit (logged cb) isLoading question (log, w) = (log, w))"
proof -
  have a: "fst (handleSubmit (logged cb) isLoading question (log, w)) =
     (if trim question \<noteq> [] \<and> \<not> isLoading then log @ [trim question] else log)"
    by (simp add: handleSubmit_def logged_def split: prod.splits)
  have b: "fst (handleKeyDown (logged cb) isLoading question e (log, w)) =
     (if key e = ''Enter'' \<and> \<not> shiftKey e \<and> trim question \<noteq> [] \<and> \<not> isLoading
      then log @ [trim question] else log)"
  proof (cases "key e = ''Enter'' \<and> \<not> shiftKey e")
    case True
    then show ?thesis unfolding handleKeyDown_def using a by simp
  next
    case False
    then show ?thesis unfolding handleKeyDown_def by auto
  qed
  have d: "ask_button_disabled isLoading question =
       (fst (handleSubmit (logged cb) isLoading question (log, w)) = log)"
    unfolding a by (auto simp: ask_button_disabled_def)
  have c: "list_all js_whitespace question \<longrightarrow>
         handleSubmit (logged cb) isLoading question (log, w) = (log, w)"
    by (simp add: handleSubmit_def trim_whitespace_only)
  show ?thesis using a b c d trim_decompose [of question] trim_no_leading [of question]
      trim_no_trailing [of question] by blast
qed

theorem questionAnswer_asks_trimmed_nonempty_witness:
  "trim ''  hi there  '' \<noteq> []
   \<and> fst (handleSubmit (logged (\<lambda>q w. (Inr (), w))) False ''  hi there  '' ([], ()))
       = [''hi there'']
   \<and> \<not> js_whitespace (hd (trim ''  hi there  ''))
   \<and> \<not> js_whitespace (last (trim ''  hi there  ''))
   \<and> list_all js_whitespace ''   ''
   \<and> handleSubmit (logged (\<lambda>q w. (Inr (), w))) False ''   '' ([], ()) = ([], ())"
proof -
  have ne: "trim ''  hi there  '' \<noteq> []" by (simp add: trim_ex1)
  have ws: "list_all js_whitespace ''   ''" by (simp add: js_whitespace_def)
  show ?thesis
    using ne ws
      questionAnswer_asks_trimmed_nonempty [of "\<lambda>q w. (Inr (), w)" False "''  hi there  ''" "[]" "()" "\<lparr>key = ''Enter'', shiftKey = False\<rparr>"]
      questionAnswer_asks_trimmed_nonempty [of "\<lambda>q w. (Inr (), w)" False "''   ''" "[]" "()" "\<lparr>key = ''Enter'', shiftKey = False\<rparr>"]
    by (simp add: trim_ex1)
qed

section \<open>PDFUpload\<close>

lemma removeFile_subset: "set (selectedFiles (removeFile i s)) \<subseteq> set (selectedFiles s)"
  unfolding removeFile_def by (auto dest: set_zip_leftD)

lemma handleDrop_selected:
  "selectedFiles (handleDrop dropped s) = selectedFiles s @ filter is_pdf dropped"
proof -
  have e: "(\<lambda>f. file_type f = ''application/pdf'') = is_pdf"
    by (simp add: is_pdf_def fun_eq_iff)
  show ?thesis unfolding handleDrop_def Let_def e
    by (cases "filter is_pdf dropped = []") simp_all
qed

lemma handleFileChange_selected:
  "selectedFiles (handleFileChange chosen s) = selectedFiles s @ chosen"
  by (simp add: handleFileChange_def)

lemma clearFiles_selected: "selectedFiles (clearFiles s) = []"
  by (simp add: clearFiles_def Let_def split: option.splits)

lemma clearFiles_input: "fileInputRef (clearFiles s) = map_option (\<lambda>_. '''') (fileInputRef s)"
  by (simp add: clearFiles_def Let_def split: option.splits)

lemma step_keeps_pdf:
  "dialog_only_pdf e \<Longrightarrow> list_all is_pdf (selectedFiles s) \<Longrightarrow>
   list_all is_pdf (selectedFiles (pdfupload_step s e))"
proof (cases e)
  case (RemoveFile i)
  assume "list_all is_pdf (selectedFiles s)"
  then show ?thesis using removeFile_subset [of i s] RemoveFile
    by (auto simp: list_all_iff)
qed (auto simp: handleDrop_selected handleFileChange_selected clearFiles_selected
    list_all_iff)

lemma run_keeps_pdf:
  "list_all dialog_only_pdf es \<Longrightarrow> list_all is_pdf (selectedFiles s) \<Longrightarrow>
   list_all is_pdf (selectedFiles (foldl pdfupload_step s es))"
  by (induction es arbitrary: s) (simp_all add: step_keeps_pdf)

text \<open>
  Claim C9. A drop appends, in order, exactly the dropped files of type
  \<^verbatim>\<open>application/pdf\<close> to the selection; the file dialog appends the chosen files
  unfiltered; and when every file chosen through the dialog is a PDF, every selection
  reached from a selection of PDFs holds PDFs only, so a file of another type can enter
  through the dialog alone.
\<close>

theorem pdfUpload_drop_filters_dialog_appends:
  "selectedFiles (handleDrop dropped s) = selectedFiles s @ filter is_pdf dropped
   \<and> selectedFiles (handleFileChange chosen s) = selectedFiles s @ chosen
   \<and> (list_all dialog_only_pdf events \<and> list_all is_pdf (selectedFiles s) \<longrightarrow>
        list_all is_pdf (selectedFiles (foldl pdfupload_step s events)))"
  using handleDrop_selected [of dropped s] handleFileChange_selected [of chosen s]
    run_keeps_pdf [of events s] by blast

theorem pdfUpload_drop_filters_dialog_appends_witness:
  "list_all dialog_only_pdf [Drop [ex_txt, ex_pdf], FileChange [ex_pdf], RemoveFile 0]
   \<and> list_all is_pdf (selectedFiles pdfupload_init)
   \<and> list_all is_pdf (selectedFiles (foldl pdfupload_step pdfupload_init
        [Drop [ex_txt, ex_pdf], FileChange [ex_pdf], RemoveFile 0]))
   \<and> selectedFiles (foldl pdfupload_step pdfupload_init
        [Drop [ex_txt, ex_pdf], FileChange [ex_pdf], RemoveFile 0]) = [ex_pdf]"
proof -
  have h1: "list_all dialog_only_pdf [Drop [ex_txt, ex_pdf], FileChange [ex_pdf], RemoveFile 0]"
    by (simp add: is_pdf_def ex_pdf_def)
  have h2: "list_all is_pdf (selectedFiles pdfupload_init)"
    by (simp add: pdfupload_init_def)
  have r: "selectedFiles (foldl pdfupload_step pdfupload_init
        [Drop [ex_txt, ex_pdf], FileChange [ex_pdf], RemoveFile 0]) = [ex_pdf]"
    by (simp add: pdfupload_init_def handleDrop_def handleFileChange_def removeFile_def
        ex_pdf_def ex_txt_def Let_def upt_rec)
  show ?thesis
    using h1 h2 r
      pdfUpload_drop_filters_dialog_appends [of "[]" pdfupload_init "[]"
            "[Drop [ex_txt, ex_pdf], FileChange [ex_pdf], RemoveFile 0]"]
    by simp
qed

text \<open>
  Claim C10. With an empty selection the upload action returns without calling
  \<^verbatim>\<open>onUpload\<close>; with a non-empty one it calls \<^verbatim>\<open>onUpload\<close> once with the selection, and
  once that call has resolved the selection is the empty list and the value of the
  attached file input is the empty string.
\<close>

theorem pdfUpload_upload_guard_and_clear:
  "(selectedFiles s = [] \<longrightarrow>
      PDFUpload_handleUpload (logged cb) s (log, w) = (Inr (), s, (log, w)))
   \<and> (selectedFiles s \<noteq> [] \<longrightarrow> cb (selectedFiles s) w = (Inr u, w') \<longrightarrow>
      PDFUpload_handleUpload (logged cb) s (log, w) =
        (Inr (), s\<lparr>selectedFiles := [], fileInputRef := map_option (\<lambda>_. []) (fileInputRef s)\<rparr>,
         (log @ [selectedFiles s], w')))"
  by (cases "fileInputRef s")
     (simp_all add: PDFUpload_handleUpload_def logged_def clearFiles_def Let_def)

theorem pdfUpload_upload_guard_and_clear_witness:
  "selectedFiles (pdfupload_init\<lparr>selectedFiles := [ex_pdf]\<rparr>) \<noteq> []
   \<and> PDFUpload_handleUpload (logged (\<lambda>fs w. (Inr (), w)))
        (pdfupload_init\<lparr>selectedFiles := [ex_pdf], fileInputRef := Some ''C:/fakepath/a.pdf''\<rparr>) ([], ())
      = (Inr (), pdfupload_init, ([[ex_pdf]], ()))
   \<and> PDFUpload_handleUpload (logged (\<lambda>fs w. (Inr (), w))) pdfupload_init ([], ())
      = (Inr (), pdfupload_init, ([], ()))"
  using
    pdfUpload_upload_guard_and_clear [of "pdfupload_init\<lparr>selectedFiles := [ex_pdf], fileInputRef := Some ''C:/fakepath/a.pdf''\<rparr>"
            "\<lambda>fs w. (Inr (), w)" "[]" "()" "()" "()"]
    pdfUpload_upload_guard_and_clear [of pdfupload_init "\<lambda>fs w. (Inr (), w)" "[]" "()" "()" "()"]
  by (simp add: pdfupload_init_def)

section \<open>The API service module\<close>

text \<open>Each function of the module is one \<open>single_request\<close>.\<close>

lemma uploadPDFs_single:
  "uploadPDFs srv files =
     single_request ''Upload failed: ''
       \<lparr>req_url = API_BASE_URL @ ''/upload-pdfs'', req_method = ''POST'', req_headers = [],
        req_body = FormDataBody (map (\<lambda>file. (''files'', FormFile file)) files)\<rparr> srv"
  by (rule ext)
     (simp add: uploadPDFs_def single_request_def fetch_def Let_def split: fetch_outcome.splits)

lemma handleDuplicate_single:
  "handleDuplicate srv file action =
     single_request ''Failed to handle duplicate: '' (duplicate_request file action) srv"
  by (rule ext)
     (simp add: handleDuplicate_def single_request_def duplicate_request_def fetch_def Let_def
        split: fetch_outcome.splits)

lemma askQuestion_single:
  "askQuestion srv question topK =
     single_request ''Failed to get answer: ''
       (ask_request question (case topK of None \<Rightarrow> 5 | Some k \<Rightarrow> k)) srv"
  by (rule ext)
     (simp add: askQuestion_def single_request_def ask_request_def fetch_def Let_def
        split: fetch_outcome.splits)

lemma getDocuments_single:
  "getDocuments srv =
     single_request ''Failed to get documents: '' (get_request (API_BASE_URL @ ''/documents'')) srv"
  by (rule ext)
     (simp add: getDocuments_def single_request_def fetch_def split: fetch_outcome.splits)

lemma deleteDocument_single:
  "deleteDocument srv docId =
     single_request ''Failed to delete document: ''
       \<lparr>req_url = API_BASE_URL @ ''/documents/'' @ to_string docId, req_method = ''DELETE'',
        req_headers = [], req_body = NoBody\<rparr> srv"
  by (rule ext)
     (simp add: deleteDocument_def single_request_def fetch_def split: fetch_outcome.splits)

lemma getStats_single:
  "getStats srv =
     single_request ''Failed to get stats: '' (get_request (API_BASE_URL @ ''/stats'')) srv"
  by (rule ext)
     (simp add: getStats_def single_request_def fetch_def split: fetch_outcome.splits)

lemma healthCheck_single:
  "healthCheck srv =
     single_request ''Backend is not healthy: '' (get_request (API_BASE_URL @ ''/health'')) srv"
  by (rule ext)
     (simp add: healthCheck_def single_request_def fetch_def split: fetch_outcome.splits)

lemma single_request_log: "snd (single_request m req srv log) = log @ [req]"
  by (simp add: single_request_def)

text \<open>The requests \<^verbatim>\<open>App\<close> makes through the module.\<close>

lemma addToast_toasts:
  "addToast clock m ty s =
     s\<lparr>toasts := toasts s @ [\<lparr>toast_id = clock (date_reads s), toast_message = m, toast_type = ty\<rparr>],
       date_reads := Suc (date_reads s)\<rparr>"
  by (simp add: addToast_def Let_def)

lemma addToast_requests [simp]: "requests (addToast clock m ty s) = requests s"
  by (simp add: addToast_toasts)

lemma refreshData_requests:
  "requests (refreshData srv s) =
     requests s @ [get_request (API_BASE_URL @ ''/documents''), get_request (API_BASE_URL @ ''/stats'')]"
  by (simp add: refreshData_def getDocuments_single getStats_single single_request_def
      split: prod.splits sum.splits)

lemma handleAsk_requests:
  "requests (handleAsk srv clock question s) = requests s @ [ask_request question 5]"
proof -
  obtain r where a: "askQuestion srv question None (requests s) =
      (r, requests s @ [ask_request question 5])"
    by (simp add: askQuestion_single single_request_def)
  have b: "askQuestion srv question None
       (requests (s\<lparr>isAsking := True, answer := JStr [], sources := JArr []\<rparr>)) =
      (r, requests s @ [ask_request question 5])"
    using a by simp
  show ?thesis
    unfolding handleAsk_def Let_def b
    by (cases r) simp_all
qed

text \<open>
  Claim C5. \<^verbatim>\<open>askQuestion\<close> without a second argument sends one request whose JSON
  body has \<^verbatim>\<open>top_k\<close> equal to 5; with an explicit \<^verbatim>\<open>topK\<close> the body's \<^verbatim>\<open>top_k\<close> is that
  value; in both the body's \<^verbatim>\<open>question\<close> is the given string. \<^verbatim>\<open>handleAsk\<close>, the one
  caller, passes no second argument, so what it sends has \<^verbatim>\<open>top_k\<close> equal to 5.
\<close>

theorem askQuestion_top_k_default_and_explicit:
  "snd (askQuestion srv question None log) =
     log @ [\<lparr>req_url = API_BASE_URL @ ''/ask'', req_method = ''POST'',
             req_headers = [(''Content-Type'', ''application/json'')],
             req_body = JsonText (JObj [(''question'', JStr question), (''top_k'', JNum 5)])\<rparr>]
   \<and> snd (askQuestion srv question (Some topK) log) =
     log @ [\<lparr>req_url = API_BASE_URL @ ''/ask'', req_method = ''POST'',
             req_headers = [(''Content-Type'', ''application/json'')],
             req_body = JsonText (JObj [(''question'', JStr question), (''top_k'', JNum topK)])\<rparr>]
   \<and> requests (handleAsk srv clock question s) =
     requests s @ [\<lparr>req_url = API_BASE_URL @ ''/ask'', req_method = ''POST'',
             req_headers = [(''Content-Type'', ''application/json'')],
             req_body = JsonText (JObj [(''question'', JStr question), (''top_k'', JNum 5)])\<rparr>]"
  using handleAsk_requests [of srv clock question s]
  by (simp add: askQuestion_single single_request_def ask_request_def)

text \<open>
  Claim C6, as stated, fails: an API function also throws when the response is ok but
  its body is not JSON, and when \<^verbatim>\<open>fetch\<close> rejects because no response arrives.
\<close>

theorem api_throws_on_ok_response:
  "ex_server_html [] (get_request (API_BASE_URL @ ''/health'')) =
     Resolved \<lparr>resp_ok = True, resp_statusText = ''OK'',
               resp_json = Inl (SyntaxError ''Unexpected token < in JSON at position 0'')\<rparr>
   \<and> fst (healthCheck ex_server_html []) =
       Inl (SyntaxError ''Unexpected token < in JSON at position 0'')
   \<and> fst (healthCheck ex_server_down []) = Inl (TypeError ''Failed to fetch'')"
  by (simp add: healthCheck_single single_request_def ex_server_html_def ex_server_down_def)

text \<open>
  Claim C6, amended. Every function of the API module makes exactly one request per
  invocation and never retries. When \<^verbatim>\<open>fetch\<close> rejects, the function rejects with the
  same error; when the response is not ok, it throws an \<^verbatim>\<open>Error\<close> of its own message
  followed by the status text; when the response is ok, its outcome is that of
  \<^verbatim>\<open>response.json()\<close>: the parsed body, or the rejection for a body that is not JSON.
\<close>

theorem api_single_request_no_retry:
  "uploadPDFs srv files =
     single_request ''Upload failed: ''
       \<lparr>req_url = API_BASE_URL @ ''/upload-pdfs'', req_method = ''POST'', req_headers = [],
        req_body = FormDataBody (map (\<lambda>file. (''files'', FormFile file)) files)\<rparr> srv
   \<and> handleDuplicate srv file action =
     single_request ''Failed to handle duplicate: ''
       \<lparr>req_url = API_BASE_URL @ ''/handle-duplicate'', req_method = ''POST'', req_headers = [],
        req_body = FormDataBody [(''file'', FormFile file), (''action'', FormString action)]\<rparr> srv
   \<and> askQuestion srv question topK =
     single_request ''Failed to get answer: ''
       \<lparr>req_url = API_BASE_URL @ ''/ask'', req_method = ''POST'',
        req_headers = [(''Content-Type'', ''application/json'')],
        req_body = JsonText (JObj [(''question'', JStr question),
                      (''top_k'', JNum (case topK of None \<Rightarrow> 5 | Some k \<Rightarrow> k))])\<rparr> srv
   \<and> getDocuments srv =
     single_request ''Failed to get documents: '' (get_request (API_BASE_URL @ ''/documents'')) srv
   \<and> deleteDocument srv docId =
     single_request ''Failed to delete document: ''
       \<lparr>req_url = API_BASE_URL @ ''/documents/'' @ to_string docId, req_method = ''DELETE'',
        req_headers = [], req_body = NoBody\<rparr> srv
   \<and> getStats srv =
     single_request ''Failed to get stats: '' (get_request (API_BASE_URL @ ''/stats'')) srv
   \<and> healthCheck srv =
     single_request ''Backend is not healthy: '' (get_request (API_BASE_URL @ ''/health'')) srv
   \<and> snd (single_request message req srv log) = log @ [req]
   \<and> (srv log req = Rejected err \<longrightarrow> fst (single_request message req srv log) = Inl err)
   \<and> (srv log req = Resolved response \<and> \<not> resp_ok response \<longrightarrow>
        fst (single_request message req srv log) =
          Inl (Error (message @ resp_statusText response)))
   \<and> (srv log req = Resolved response \<and> resp_ok response \<longrightarrow>
        fst (single_request message req srv log) = resp_json response)"
proof -
  have r: "snd (single_request message req srv log) = log @ [req]"
    by (rule single_request_log)
  have x: "srv log req = Rejected err \<longrightarrow> fst (single_request message req srv log) = Inl err"
    by (simp add: single_request_def)
  have y: "srv log req = Resolved response \<and> \<not> resp_ok response \<longrightarrow>
        fst (single_request message req srv log) =
          Inl (Error (message @ resp_statusText response))"
    by (simp add: single_request_def)
  have z: "srv log req = Resolved response \<and> resp_ok response \<longrightarrow>
        fst (single_request message req srv log) = resp_json response"
    by (simp add: single_request_def)
  have h: "handleDuplicate srv file action =
     single_request ''Failed to handle duplicate: ''
       \<lparr>req_url = API_BASE_URL @ ''/handle-duplicate'', req_method = ''POST'', req_headers = [],
        req_body = FormDataBody [(''file'', FormFile file), (''action'', FormString action)]\<rparr> srv"
    using handleDuplicate_single [of srv "file" action] by (simp add: duplicate_request_def)
  have q: "askQuestion srv question topK =
     single_request ''Failed to get answer: ''
       \<lparr>req_url = API_BASE_URL @ ''/ask'', req_method = ''POST'',
        req_headers = [(''Content-Type'', ''application/json'')],
        req_body = JsonText (JObj [(''question'', JStr question),
                      (''top_k'', JNum (case topK of None \<Rightarrow> 5 | Some k \<Rightarrow> k))])\<rparr> srv"
    using askQuestion_single [of srv question topK] by (simp add: ask_request_def)
  show ?thesis
    using uploadPDFs_single [of srv files] h q getDocuments_single [of srv]
      deleteDocument_single [of srv docId] getStats_single [of srv] healthCheck_single [of srv]
      r x y z
    by blast
qed

theorem api_single_request_no_retry_witness:
  "ex_server_down [] (get_request (API_BASE_URL @ ''/health'')) = Rejected (TypeError ''Failed to fetch'')
   \<and> healthCheck ex_server_down [] =
       (Inl (TypeError ''Failed to fetch''), [get_request (API_BASE_URL @ ''/health'')])
   \<and> ex_server_error [] (get_request (API_BASE_URL @ ''/health'')) =
       Resolved \<lparr>resp_ok = False, resp_statusText = ''Internal Server Error'', resp_json = Inr JNull\<rparr>
   \<and> healthCheck ex_server_error [] =
       (Inl (Error ''Backend is not healthy: Internal Server Error''),
        [get_request (API_BASE_URL @ ''/health'')])
   \<and> ex_server_two [] (get_request (API_BASE_URL @ ''/health'')) =
       Resolved (ok_response (JArr [JObj ex_duplicate_a, JObj ex_other, JObj ex_duplicate_b]))
   \<and> healthCheck ex_server_two [] =
       (Inr (JArr [JObj ex_duplicate_a, JObj ex_other, JObj ex_duplicate_b]),
        [get_request (API_BASE_URL @ ''/health'')])"
proof -
  have a: "ex_server_down [] (get_request (API_BASE_URL @ ''/health'')) =
      Rejected (TypeError ''Failed to fetch'')"
    by (simp add: ex_server_down_def)
  have b: "ex_server_error [] (get_request (API_BASE_URL @ ''/health'')) =
       Resolved \<lparr>resp_ok = False, resp_statusText = ''Internal Server Error'', resp_json = Inr JNull\<rparr>"
    by (simp add: ex_server_error_def)
  have c: "ex_server_two [] (get_request (API_BASE_URL @ ''/health'')) =
       Resolved (ok_response (JArr [JObj ex_duplicate_a, JObj ex_other, JObj ex_duplicate_b]))"
    by (simp add: ex_server_two_def)
  have ok: "resp_ok (ok_response v)" "resp_json (ok_response v) = Inr v" for v
    by (simp_all add: ok_response_def)
  show ?thesis
    using a b c
      api_single_request_no_retry [of ex_server_down _ _ _ _ _ _ "''Backend is not healthy: ''"
          "get_request (API_BASE_URL @ ''/health'')" "[]" "TypeError ''Failed to fetch''"]
      api_single_request_no_retry [of ex_server_error _ _ _ _ _ _ "''Backend is not healthy: ''"
          "get_request (API_BASE_URL @ ''/health'')" "[]" _
          "\<lparr>resp_ok = False, resp_statusText = ''Internal Server Error'', resp_json = Inr JNull\<rparr>"]
      api_single_request_no_retry [of ex_server_two _ _ _ _ _ _ "''Backend is not healthy: ''"
          "get_request (API_BASE_URL @ ''/health'')" "[]" _
          "ok_response (JArr [JObj ex_duplicate_a, JObj ex_other, JObj ex_duplicate_b])"]
    by (simp add: prod_eq_iff ok)
qed

section \<open>App: the upload results\<close>

lemma show_12: "show_int 12 = ''12''"
  by (simp add: show_int_def show_nat.simps digit_char_def)

text \<open>The loop as a whole: which results it gets through, and what it leaves in the
  slot.\<close>

lemma step_not_nullish:
  "\<not> nullish r \<Longrightarrow> \<exists>sc' dc' s'. upload_result_step clock files r (sc, dc, s) = Inr (sc', dc', s')
     \<and> dc' = dc + (if is_duplicate r then 1 else 0)
     \<and> duplicateInfo s' = (if is_duplicate r then r else duplicateInfo s)
     \<and> pendingFile s' = (if is_duplicate r then find_file files (own_prop r ''filename'')
                           else pendingFile s)"
  by (simp add: upload_result_step_def is_duplicate_def addToast_toasts)

lemma step_nullish:
  "nullish r \<Longrightarrow> upload_result_step clock files r (sc, dc, s) = Inl (cannot_read r ''status'')"
  by (simp add: upload_result_step_def)

lemma slot_after_Nil: "slot_after files [] slot = slot"
  by (simp add: slot_after_def processed_def)

lemma slot_after_Cons:
  "\<not> nullish r \<Longrightarrow>
   slot_after files (r # rs) slot =
     slot_after files rs
       (if is_duplicate r then (r, find_file files (own_prop r ''filename'')) else slot)"
  by (simp add: slot_after_def processed_def split: list.splits)

lemma slot_after_nullish: "nullish r \<Longrightarrow> slot_after files (r # rs) slot = slot"
  by (simp add: slot_after_def processed_def)

lemma loop_slot_general:
  "\<exists>sc' s'. upload_loop clock files rs (sc, dc, s) =
       ((case dropWhile (\<lambda>r. \<not> nullish r) rs of
           [] \<Rightarrow> None
         | r # _ \<Rightarrow> Some (cannot_read r ''status'')),
        sc', dc + length (filter is_duplicate (processed rs)), s')
     \<and> (duplicateInfo s', pendingFile s') = slot_after files rs (duplicateInfo s, pendingFile s)"
proof (induction rs arbitrary: sc dc s)
  case Nil
  then show ?case by (simp add: processed_def slot_after_Nil)
next
  case (Cons r rs)
  show ?case
  proof (cases "nullish r")
    case True
    then show ?thesis
      by (simp add: step_nullish processed_def slot_after_nullish)
  next
    case False
    from step_not_nullish [OF False, of clock files sc dc s]
    obtain sc1 dc1 s1 where
      st: "upload_result_step clock files r (sc, dc, s) = Inr (sc1, dc1, s1)"
      and d: "dc1 = dc + (if is_duplicate r then 1 else 0)"
      and i: "duplicateInfo s1 = (if is_duplicate r then r else duplicateInfo s)"
      and p: "pendingFile s1 = (if is_duplicate r then find_file files (own_prop r ''filename'')
                             else pendingFile s)"
      by blast
    from Cons.IH [of sc1 dc1 s1]
    obtain sc' s' where
      l: "upload_loop clock files rs (sc1, dc1, s1) =
         ((case dropWhile (\<lambda>r. \<not> nullish r) rs of
             [] \<Rightarrow> None
           | r # _ \<Rightarrow> Some (cannot_read r ''status'')),
          sc', dc1 + length (filter is_duplicate (processed rs)), s')"
      and sl: "(duplicateInfo s', pendingFile s') =
                 slot_after files rs (duplicateInfo s1, pendingFile s1)"
      by blast
    have "upload_loop clock files (r # rs) (sc, dc, s) =
         ((case dropWhile (\<lambda>r. \<not> nullish r) (r # rs) of
             [] \<Rightarrow> None
           | r # _ \<Rightarrow> Some (cannot_read r ''status'')),
          sc', dc + length (filter is_duplicate (processed (r # rs))), s')"
      using st l d False by (simp add: processed_def)
    moreover have "(duplicateInfo s', pendingFile s') =
        slot_after files (r # rs) (duplicateInfo s, pendingFile s)"
      using sl i p False by (simp add: slot_after_Cons)
    ultimately show ?thesis by blast
  qed
qed

lemma addToast_slot [simp]:
  "duplicateInfo (addToast clock m ty s) = duplicateInfo s"
  "pendingFile (addToast clock m ty s) = pendingFile s"
  by (simp_all add: addToast_toasts)

lemma refreshData_slot [simp]:
  "duplicateInfo (refreshData srv s) = duplicateInfo s"
  "pendingFile (refreshData srv s) = pendingFile s"
  by (simp_all add: refreshData_def split: prod.splits sum.splits)

lemma handleUpload_slot:
  assumes up: "fst (uploadPDFs srv files (requests s)) = Inr (JArr rs)"
  shows "(duplicateInfo (App_handleUpload srv clock files s),
          pendingFile (App_handleUpload srv clock files s)) =
         slot_after files rs (duplicateInfo s, pendingFile s)"
proof -
  obtain log where u: "uploadPDFs srv files (requests s) = (Inr (JArr rs), log)"
    using up by (cases "uploadPDFs srv files (requests s)") simp
  define s1 where "s1 = s\<lparr>isUploading := True, requests := log\<rparr>"
  from loop_slot_general [of clock files rs 0 0 s1]
  obtain err sc' dc' s' where
    l: "upload_loop clock files rs (0, 0, s1) = (err, sc', dc', s')"
    and sl: "(duplicateInfo s', pendingFile s') =
              slot_after files rs (duplicateInfo s1, pendingFile s1)"
    by blast
  have s1slot: "duplicateInfo s1 = duplicateInfo s" "pendingFile s1 = pendingFile s"
    by (simp_all add: s1_def)
  have l': "upload_loop clock files rs (0, 0, s\<lparr>isUploading := True, requests := log\<rparr>)
             = (err, sc', dc', s')"
    using l by (simp add: s1_def)
  show ?thesis
    unfolding App_handleUpload_def Let_def
    using u l' sl s1slot
    by (cases err) (simp_all split: if_splits)
qed

text \<open>The first matching file, the state after the loop in closed form, and the handler
  without the loop.\<close>

lemma find_filter: "List.find P xs = (case filter P xs of [] \<Rightarrow> None | x # _ \<Rightarrow> Some x)"
  by (induction xs) simp_all

lemma find_file_first:
  "find_file files v =
     (case filter (\<lambda>f. JStr (file_name f) = v) files of [] \<Rightarrow> FUndefined | f # _ \<Rightarrow> FFile f)"
  by (simp add: find_file_def find_filter split: list.splits)

lemma find_file_found:
  assumes "\<exists>f\<in>set files. JStr (file_name f) = v"
  shows "\<exists>f. find_file files v = FFile f \<and> f \<in> set files \<and> JStr (file_name f) = v"
proof (cases "filter (\<lambda>f. JStr (file_name f) = v) files")
  case Nil
  with assms show ?thesis by (auto simp: filter_empty_conv)
next
  case (Cons f fs)
  then have "f \<in> set (filter (\<lambda>f. JStr (file_name f) = v) files)" by simp
  then have "f \<in> set files" and "JStr (file_name f) = v" by simp_all
  moreover have "find_file files v = FFile f" by (simp add: find_file_first Cons)
  ultimately show ?thesis by blast
qed

lemma after_results_Nil: "after_results clock files [] s = s"
  by (simp add: after_results_def slot_after_Nil processed_def)

lemma after_results_nullish: "nullish r \<Longrightarrow> after_results clock files (r # rs) s = s"
  by (simp add: after_results_def slot_after_nullish processed_def)

lemma step_state:
  "\<not> nullish r \<Longrightarrow>
   upload_result_step clock files r (sc, dc, s) =
     Inr (sc + (if is_success r then 1 else 0), dc + (if is_duplicate r then 1 else 0),
          after_results clock files [r] s)"
  by (auto simp: upload_result_step_def is_success_def is_duplicate_def is_error_def
      after_results_def slot_after_def processed_def result_toasts_def addToast_toasts)

lemma after_results_Cons:
  "\<not> nullish r \<Longrightarrow>
   after_results clock files (r # rs) s = after_results clock files rs (after_results clock files [r] s)"
  by (simp add: after_results_def slot_after_Cons [of r] slot_after_Nil processed_def
      result_toasts_def)


lemma upload_loop_closed:
  "upload_loop clock files rs (sc, dc, s) =
     (thrown rs,
      sc + length (filter is_success (processed rs)),
      dc + length (filter is_duplicate (processed rs)),
      after_results clock files rs s)"
proof (induction rs arbitrary: sc dc s)
  case Nil
  then show ?case by (simp add: thrown_def processed_def after_results_Nil)
next
  case (Cons r rs)
  show ?case
  proof (cases "nullish r")
    case True
    then show ?thesis
      by (simp add: step_nullish thrown_def processed_def after_results_nullish)
  next
    case False
    then show ?thesis
      using Cons.IH [of "sc + (if is_success r then 1 else 0)"
          "dc + (if is_duplicate r then 1 else 0)" "after_results clock files [r] s"]
      by (simp add: step_state thrown_def processed_def after_results_Cons [of r clock files rs])
  qed
qed

lemma upload_loop_drop_other:
  "upload_loop clock files (filter (\<lambda>r. nullish r \<or> classified r) rs) acc =
   upload_loop clock files rs acc"
proof (induction rs arbitrary: acc)
  case Nil
  then show ?case by simp
next
  case (Cons r rs)
  obtain sc dc s where acc: "acc = (sc, dc, s)" by (cases acc)
  show ?case
  proof (cases "nullish r \<or> classified r")
    case True
    then show ?thesis using Cons.IH by (simp split: sum.splits)
  next
    case False
    then have "upload_result_step clock files r acc = Inr acc"
      by (auto simp: acc upload_result_step_def classified_def is_success_def is_duplicate_def
          is_error_def)
    then show ?thesis using False Cons.IH by simp
  qed
qed

lemma addToast_isUploading:
  "addToast clock m ty (x\<lparr>isUploading := b\<rparr>) = (addToast clock m ty x)\<lparr>isUploading := b\<rparr>"
  by (simp add: addToast_toasts)

lemma refreshData_isUploading:
  "refreshData srv (x\<lparr>isUploading := b\<rparr>) = (refreshData srv x)\<lparr>isUploading := b\<rparr>"
  by (simp add: refreshData_def split: prod.splits sum.splits)

lemma handleUpload_closed:
  assumes up: "fst (uploadPDFs srv files (requests s)) = Inr results"
    and it: "iterate ''results'' results = Inr rs"
  shows "App_handleUpload srv clock files s = handleUpload_outcome srv clock files rs s"
proof -
  have u: "uploadPDFs srv files (requests s) = (Inr results, requests s @ [upload_request files])"
    using up by (simp add: uploadPDFs_single single_request_def upload_request_def prod_eq_iff)
  have a: "after_results clock files rs (s\<lparr>isUploading := True, requests := requests s @ [upload_request files]\<rparr>)
      = (after_results clock files rs (s\<lparr>requests := requests s @ [upload_request files]\<rparr>))\<lparr>isUploading := True\<rparr>"
    by (simp add: after_results_def)
  show ?thesis
    unfolding App_handleUpload_def handleUpload_outcome_def Let_def
    by (simp add: u it upload_loop_closed a addToast_isUploading refreshData_isUploading
        split: option.splits)
qed


lemma stamp_messages: "map (\<lambda>t. (toast_message t, toast_type t)) (stamp clock n ms) = ms"
  by (induction ms arbitrary: n) auto

lemma refreshData_toasts: "toasts (refreshData srv x) = toasts x"
  by (simp add: refreshData_def split: prod.splits sum.splits)

lemma handleUpload_outcome_toasts:
  "map (\<lambda>t. (toast_message t, toast_type t)) (toasts (handleUpload_outcome srv clock files rs s)) =
     map (\<lambda>t. (toast_message t, toast_type t)) (toasts s)
     @ concat (map result_toasts (processed rs))
     @ (case thrown rs of
          Some e \<Rightarrow> [(JStr (''Upload failed: '' @ error_message e), ''error'')]
        | None \<Rightarrow>
            if filter is_duplicate (processed rs) = []
            then [(JStr (''Upload complete: ''
                         @ show_nat (length (filter is_success (processed rs)))
                         @ '' files processed''), ''success'')]
            else [])"
  by (simp add: handleUpload_outcome_def Let_def after_results_def addToast_toasts
      refreshData_toasts stamp_messages split: option.splits)

lemma ex_mixed_classes:
  "is_success (JObj ex_success)" "\<not> is_duplicate (JObj ex_success)" "\<not> is_error (JObj ex_success)"
  "\<not> is_success (JObj ex_other)" "\<not> is_duplicate (JObj ex_other)" "\<not> is_error (JObj ex_other)"
  "\<not> is_success (JObj ex_duplicate_a)" "is_duplicate (JObj ex_duplicate_a)"
  "\<not> is_error (JObj ex_duplicate_a)"
  "\<not> is_success (JObj ex_error)" "\<not> is_duplicate (JObj ex_error)" "is_error (JObj ex_error)"
  by (simp_all add: is_success_def is_duplicate_def is_error_def ex_success_def ex_other_def
      ex_duplicate_a_def ex_error_def)

lemma ex_mixed_toasts:
  "result_toasts (JObj ex_success) = [(JStr ''Uploaded: a.pdf (12 chunks)'', ''success'')]"
  "result_toasts (JObj ex_other) = []"
  "result_toasts (JObj ex_duplicate_a) = []"
  "result_toasts (JObj ex_error) = [(JStr ''Error: a.pdf - no text'', ''error'')]"
  by (simp_all add: result_toasts_def ex_mixed_classes)
     (simp_all add: ex_success_def ex_error_def show_12 safe_integer_def)

lemma ex_mixed_refresh:
  "refreshData ex_server_mixed x =
     x\<lparr>requests := requests x @ [get_request (API_BASE_URL @ ''/documents''),
                                   get_request (API_BASE_URL @ ''/stats'')]\<rparr>"
  by (simp add: refreshData_def getDocuments_single getStats_single single_request_def
      ex_server_mixed_def get_request_def API_BASE_URL_def)

lemma ex_mixed_outcome:
  "handleUpload_outcome ex_server_mixed ex_clock [ex_pdf]
     [JObj ex_success, JObj ex_other, JObj ex_duplicate_a, JObj ex_error] app_init =
   app_init
     \<lparr>duplicateInfo := JObj ex_duplicate_a,
      pendingFile := FFile ex_pdf,
      toasts := [\<lparr>toast_id = 1700000000000,
                   toast_message = JStr ''Uploaded: a.pdf (12 chunks)'',
                   toast_type = ''success''\<rparr>,
                 \<lparr>toast_id = 1700000000001,
                   toast_message = JStr ''Error: a.pdf - no text'',
                   toast_type = ''error''\<rparr>],
      requests := [upload_request [ex_pdf], get_request (API_BASE_URL @ ''/documents''),
                   get_request (API_BASE_URL @ ''/stats'')],
      date_reads := 2\<rparr>"
proof -
  have p: "processed [JObj ex_success, JObj ex_other, JObj ex_duplicate_a, JObj ex_error] =
      [JObj ex_success, JObj ex_other, JObj ex_duplicate_a, JObj ex_error]"
    and t: "thrown [JObj ex_success, JObj ex_other, JObj ex_duplicate_a, JObj ex_error] = None"
    by (simp_all add: processed_def thrown_def nullish_def)
  have f: "find_file [ex_pdf] (own_prop (JObj ex_duplicate_a) ''filename'') = FFile ex_pdf"
    by (simp add: find_file_def ex_duplicate_a_def ex_pdf_def)
  show ?thesis
    by (simp add: handleUpload_outcome_def Let_def t after_results_def slot_after_def p
        ex_mixed_classes ex_mixed_toasts f ex_mixed_refresh app_init_def ex_clock_def
        del: own_prop.simps)
qed


text \<open>
  Claim C1. \<^verbatim>\<open>handleUpload\<close> classifies every result the upload returns by its \<^verbatim>\<open>status\<close>.
  For one result object, the loop body does this: \<^verbatim>\<open>success\<close> appends a success toast and
  increments the success count; \<^verbatim>\<open>duplicate\<close> increments the duplicate count and stores the
  result as \<^verbatim>\<open>duplicateInfo\<close> and, as \<^verbatim>\<open>pendingFile\<close>, the first uploaded file whose name is the
  result's \<^verbatim>\<open>filename\<close> (undefined when no uploaded file has that name); \<^verbatim>\<open>error\<close> appends
  an error toast; every other status, a missing one included, leaves counters and state as
  they were. For the loop: it counts the successes and the duplicates among the results it
  gets through and leaves the state \<open>after_results\<close>, and the results of another status
  can be dropped from the list without any difference. For the handler: when the upload
  returns the results \<open>rs\<close>, the state it leaves is \<open>handleUpload_outcome\<close>; its toasts are
  the former ones, then one per success and per error in the order of the results, then
  the failure toast if the loop threw or the completion toast if there was no duplicate.
\<close>

theorem handleUpload_classifies_by_status:
  "(map_of kvs ''status'' = Some (JStr ''success'') \<longrightarrow>
      upload_result_step clock files (JObj kvs) (sc, dc, s) =
        Inr (sc + 1, dc,
             s\<lparr>toasts := toasts s @
                  [\<lparr>toast_id = clock (date_reads s),
                    toast_message = JStr (''Uploaded: '' @ to_string (own_prop (JObj kvs) ''filename'')
                       @ '' ('' @ to_string (own_prop (JObj kvs) ''chunks'') @ '' chunks)''),
                    toast_type = ''success''\<rparr>],
               date_reads := Suc (date_reads s)\<rparr>))
   \<and> (map_of kvs ''status'' = Some (JStr ''duplicate'') \<longrightarrow>
      upload_result_step clock files (JObj kvs) (sc, dc, s) =
        Inr (sc, dc + 1, s\<lparr>duplicateInfo := JObj kvs,
                           pendingFile := find_file files (own_prop (JObj kvs) ''filename'')\<rparr>))
   \<and> find_file files v =
       (case filter (\<lambda>f. JStr (file_name f) = v) files of
          [] \<Rightarrow> FUndefined
        | f # _ \<Rightarrow> FFile f)
   \<and> ((\<exists>f\<in>set files. JStr (file_name f) = v) \<longrightarrow>
        (\<exists>f. find_file files v = FFile f \<and> f \<in> set files \<and> JStr (file_name f) = v))
   \<and> (map_of kvs ''status'' = Some (JStr ''error'') \<longrightarrow>
      upload_result_step clock files (JObj kvs) (sc, dc, s) =
        Inr (sc, dc,
             s\<lparr>toasts := toasts s @
                  [\<lparr>toast_id = clock (date_reads s),
                    toast_message = JStr (''Error: '' @ to_string (own_prop (JObj kvs) ''filename'')
                       @ '' - '' @ to_string (own_prop (JObj kvs) ''message'')),
                    toast_type = ''error''\<rparr>],
               date_reads := Suc (date_reads s)\<rparr>))
   \<and> (map_of kvs ''status'' \<noteq> Some (JStr ''success'') \<and>
      map_of kvs ''status'' \<noteq> Some (JStr ''duplicate'') \<and>
      map_of kvs ''status'' \<noteq> Some (JStr ''error'') \<longrightarrow>
      upload_result_step clock files (JObj kvs) (sc, dc, s) = Inr (sc, dc, s))
   \<and> upload_loop clock files rs (sc, dc, s) =
       (thrown rs,
        sc + length (filter is_success (processed rs)),
        dc + length (filter is_duplicate (processed rs)),
        after_results clock files rs s)
   \<and> upload_loop clock files (filter (\<lambda>r. nullish r \<or> classified r) rs) (sc, dc, s) =
       upload_loop clock files rs (sc, dc, s)
   \<and> (fst (uploadPDFs srv files (requests s)) = Inr results
        \<and> iterate ''results'' results = Inr rs \<longrightarrow>
      App_handleUpload srv clock files s = handleUpload_outcome srv clock files rs s
      \<and> map (\<lambda>t. (toast_message t, toast_type t)) (toasts (App_handleUpload srv clock files s)) =
          map (\<lambda>t. (toast_message t, toast_type t)) (toasts s)
          @ concat (map result_toasts (processed rs))
          @ (case thrown rs of
               Some e \<Rightarrow> [(JStr (''Upload failed: '' @ error_message e), ''error'')]
             | None \<Rightarrow>
                 if filter is_duplicate (processed rs) = []
                 then [(JStr (''Upload complete: ''
                              @ show_nat (length (filter is_success (processed rs)))
                              @ '' files processed''), ''success'')]
                 else []))"
proof -
  have a: "map_of kvs ''status'' = Some (JStr ''success'') \<longrightarrow>
      upload_result_step clock files (JObj kvs) (sc, dc, s) =
        Inr (sc + 1, dc,
             s\<lparr>toasts := toasts s @
                  [\<lparr>toast_id = clock (date_reads s),
                    toast_message = JStr (''Uploaded: '' @ to_string (own_prop (JObj kvs) ''filename'')
                       @ '' ('' @ to_string (own_prop (JObj kvs) ''chunks'') @ '' chunks)''),
                    toast_type = ''success''\<rparr>],
               date_reads := Suc (date_reads s)\<rparr>)"
    by (simp add: upload_result_step_def nullish_def addToast_toasts)
  have b: "map_of kvs ''status'' = Some (JStr ''duplicate'') \<longrightarrow>
      upload_result_step clock files (JObj kvs) (sc, dc, s) =
        Inr (sc, dc + 1, s\<lparr>duplicateInfo := JObj kvs,
                           pendingFile := find_file files (own_prop (JObj kvs) ''filename'')\<rparr>)"
    by (simp add: upload_result_step_def nullish_def)
  have c: "find_file files v =
       (case filter (\<lambda>f. JStr (file_name f) = v) files of
          [] \<Rightarrow> FUndefined
        | f # _ \<Rightarrow> FFile f)"
    by (rule find_file_first)
  have c2: "(\<exists>f\<in>set files. JStr (file_name f) = v) \<longrightarrow>
        (\<exists>f. find_file files v = FFile f \<and> f \<in> set files \<and> JStr (file_name f) = v)"
    using find_file_found by blast
  have d: "map_of kvs ''status'' = Some (JStr ''error'') \<longrightarrow>
      upload_result_step clock files (JObj kvs) (sc, dc, s) =
        Inr (sc, dc,
             s\<lparr>toasts := toasts s @
                  [\<lparr>toast_id = clock (date_reads s),
                    toast_message = JStr (''Error: '' @ to_string (own_prop (JObj kvs) ''filename'')
                       @ '' - '' @ to_string (own_prop (JObj kvs) ''message'')),
                    toast_type = ''error''\<rparr>],
               date_reads := Suc (date_reads s)\<rparr>)"
    by (simp add: upload_result_step_def nullish_def addToast_toasts)
  have e: "map_of kvs ''status'' \<noteq> Some (JStr ''success'') \<and>
      map_of kvs ''status'' \<noteq> Some (JStr ''duplicate'') \<and>
      map_of kvs ''status'' \<noteq> Some (JStr ''error'') \<longrightarrow>
      upload_result_step clock files (JObj kvs) (sc, dc, s) = Inr (sc, dc, s)"
    by (auto simp add: upload_result_step_def nullish_def split: option.splits)
  have f: "upload_loop clock files rs (sc, dc, s) =
       (thrown rs,
        sc + length (filter is_success (processed rs)),
        dc + length (filter is_duplicate (processed rs)),
        after_results clock files rs s)"
    by (rule upload_loop_closed)
  have g: "upload_loop clock files (filter (\<lambda>r. nullish r \<or> classified r) rs) (sc, dc, s) =
       upload_loop clock files rs (sc, dc, s)"
    by (rule upload_loop_drop_other)
  have h: "fst (uploadPDFs srv files (requests s)) = Inr results
        \<and> iterate ''results'' results = Inr rs \<longrightarrow>
      App_handleUpload srv clock files s = handleUpload_outcome srv clock files rs s
      \<and> map (\<lambda>t. (toast_message t, toast_type t)) (toasts (App_handleUpload srv clock files s)) =
          map (\<lambda>t. (toast_message t, toast_type t)) (toasts s)
          @ concat (map result_toasts (processed rs))
          @ (case thrown rs of
               Some e \<Rightarrow> [(JStr (''Upload failed: '' @ error_message e), ''error'')]
             | None \<Rightarrow>
                 if filter is_duplicate (processed rs) = []
                 then [(JStr (''Upload complete: ''
                              @ show_nat (length (filter is_success (processed rs)))
                              @ '' files processed''), ''success'')]
                 else [])"
  proof
    assume "fst (uploadPDFs srv files (requests s)) = Inr results
        \<and> iterate ''results'' results = Inr rs"
    then have eq: "App_handleUpload srv clock files s = handleUpload_outcome srv clock files rs s"
      using handleUpload_closed by blast
    show "App_handleUpload srv clock files s = handleUpload_outcome srv clock files rs s
      \<and> map (\<lambda>t. (toast_message t, toast_type t)) (toasts (App_handleUpload srv clock files s)) =
          map (\<lambda>t. (toast_message t, toast_type t)) (toasts s)
          @ concat (map result_toasts (processed rs))
          @ (case thrown rs of
               Some e \<Rightarrow> [(JStr (''Upload failed: '' @ error_message e), ''error'')]
             | None \<Rightarrow>
                 if filter is_duplicate (processed rs) = []
                 then [(JStr (''Upload complete: ''
                              @ show_nat (length (filter is_success (processed rs)))
                              @ '' files processed''), ''success'')]
                 else [])"
      unfolding eq using handleUpload_outcome_toasts [of srv clock files rs s] by simp
  qed
  from a b c c2 d e f g h show ?thesis by blast
qed

theorem handleUpload_classifies_by_status_witness:
  "map_of ex_success ''status'' = Some (JStr ''success'')
   \<and> upload_result_step ex_clock [ex_pdf] (JObj ex_success) (0, 0, app_init) =
       Inr (1, 0, app_init\<lparr>toasts :=
              [\<lparr>toast_id = 1700000000000,
                toast_message = JStr ''Uploaded: a.pdf (12 chunks)'',
                toast_type = ''success''\<rparr>],
              date_reads := 1\<rparr>)
   \<and> map_of ex_duplicate_a ''status'' = Some (JStr ''duplicate'')
   \<and> upload_result_step ex_clock [ex_pdf] (JObj ex_duplicate_a) (0, 0, app_init) =
       Inr (0, 1, app_init\<lparr>duplicateInfo := JObj ex_duplicate_a, pendingFile := FFile ex_pdf\<rparr>)
   \<and> find_file [ex_pdf] (JStr ''a.pdf'') = FFile ex_pdf
   \<and> find_file [ex_pdf] (JStr ''a_1.pdf'') = FUndefined
   \<and> map_of ex_error ''status'' = Some (JStr ''error'')
   \<and> upload_result_step ex_clock [ex_pdf] (JObj ex_error) (0, 0, app_init) =
       Inr (0, 0, app_init\<lparr>toasts :=
              [\<lparr>toast_id = 1700000000000,
                toast_message = JStr ''Error: a.pdf - no text'',
                toast_type = ''error''\<rparr>],
              date_reads := 1\<rparr>)
   \<and> map_of ex_other ''status'' = Some (JStr ''processing'')
   \<and> upload_result_step ex_clock [ex_pdf] (JObj ex_other) (0, 0, app_init) = Inr (0, 0, app_init)
   \<and> fst (uploadPDFs ex_server_mixed [ex_pdf] (requests app_init)) =
       Inr (JArr [JObj ex_success, JObj ex_other, JObj ex_duplicate_a, JObj ex_error])
   \<and> iterate ''results'' (JArr [JObj ex_success, JObj ex_other, JObj ex_duplicate_a, JObj ex_error]) =
       Inr [JObj ex_success, JObj ex_other, JObj ex_duplicate_a, JObj ex_error]
   \<and> App_handleUpload ex_server_mixed ex_clock [ex_pdf] app_init =
       app_init
         \<lparr>duplicateInfo := JObj ex_duplicate_a,
          pendingFile := FFile ex_pdf,
          toasts := [\<lparr>toast_id = 1700000000000,
                       toast_message = JStr ''Uploaded: a.pdf (12 chunks)'',
                       toast_type = ''success''\<rparr>,
                     \<lparr>toast_id = 1700000000001,
                       toast_message = JStr ''Error: a.pdf - no text'',
                       toast_type = ''error''\<rparr>],
          requests := [upload_request [ex_pdf], get_request (API_BASE_URL @ ''/documents''),
                       get_request (API_BASE_URL @ ''/stats'')],
          date_reads := 2\<rparr>"
proof -
  have 1: "map_of ex_success ''status'' = Some (JStr ''success'')"
    and 2: "map_of ex_duplicate_a ''status'' = Some (JStr ''duplicate'')"
    and 3: "map_of ex_error ''status'' = Some (JStr ''error'')"
    and 4: "map_of ex_other ''status'' = Some (JStr ''processing'')"
    by (simp_all add: ex_success_def ex_duplicate_a_def ex_error_def ex_other_def)
  have f: "find_file [ex_pdf] (own_prop (JObj ex_duplicate_a) ''filename'') = FFile ex_pdf"
    by (simp add: find_file_def ex_duplicate_a_def ex_pdf_def)
  have ff: "filter (\<lambda>f. JStr (file_name f) = JStr ''a.pdf'') [ex_pdf] = [ex_pdf]"
    "filter (\<lambda>f. JStr (file_name f) = JStr ''a_1.pdf'') [ex_pdf] = []"
    by (simp_all add: ex_pdf_def)
  have m1: "''Uploaded: '' @ to_string (own_prop (JObj ex_success) ''filename'')
        @ '' ('' @ to_string (own_prop (JObj ex_success) ''chunks'') @ '' chunks)''
        = ''Uploaded: a.pdf (12 chunks)''"
    by (simp add: ex_success_def show_12 safe_integer_def)
  have m3: "''Error: '' @ to_string (own_prop (JObj ex_error) ''filename'')
        @ '' - '' @ to_string (own_prop (JObj ex_error) ''message'') = ''Error: a.pdf - no text''"
    by (simp add: ex_error_def)
  have c: "ex_clock (date_reads app_init) = 1700000000000" "toasts app_init = []"
      "Suc (date_reads app_init) = 1"
    by (simp_all add: ex_clock_def app_init_def)
  have u: "fst (uploadPDFs ex_server_mixed [ex_pdf] (requests app_init)) =
       Inr (JArr [JObj ex_success, JObj ex_other, JObj ex_duplicate_a, JObj ex_error])"
    by (simp add: uploadPDFs_single single_request_def ex_server_mixed_def ok_response_def)
  have it: "iterate ''results'' (JArr [JObj ex_success, JObj ex_other, JObj ex_duplicate_a, JObj ex_error]) =
       Inr [JObj ex_success, JObj ex_other, JObj ex_duplicate_a, JObj ex_error]"
    by simp
  note inst = handleUpload_classifies_by_status [where clock = ex_clock and files = "[ex_pdf]" and sc = 0 and dc = 0
      and s = app_init and srv = ex_server_mixed
      and results = "JArr [JObj ex_success, JObj ex_other, JObj ex_duplicate_a, JObj ex_error]"
      and rs = "[JObj ex_success, JObj ex_other, JObj ex_duplicate_a, JObj ex_error]"]
  have s1: "upload_result_step ex_clock [ex_pdf] (JObj ex_success) (0, 0, app_init) =
       Inr (1, 0, app_init\<lparr>toasts :=
              [\<lparr>toast_id = 1700000000000,
                toast_message = JStr ''Uploaded: a.pdf (12 chunks)'',
                toast_type = ''success''\<rparr>],
              date_reads := 1\<rparr>)"
    using 1 inst [where kvs = ex_success and v = "JStr ''a.pdf''"] unfolding m1 c by simp
  have s2: "upload_result_step ex_clock [ex_pdf] (JObj ex_duplicate_a) (0, 0, app_init) =
       Inr (0, 1, app_init\<lparr>duplicateInfo := JObj ex_duplicate_a, pendingFile := FFile ex_pdf\<rparr>)"
    using 2 inst [where kvs = ex_duplicate_a and v = "JStr ''a.pdf''"] unfolding f by simp
  have s3: "upload_result_step ex_clock [ex_pdf] (JObj ex_error) (0, 0, app_init) =
       Inr (0, 0, app_init\<lparr>toasts :=
              [\<lparr>toast_id = 1700000000000,
                toast_message = JStr ''Error: a.pdf - no text'',
                toast_type = ''error''\<rparr>],
              date_reads := 1\<rparr>)"
    using 3 inst [where kvs = ex_error and v = "JStr ''a.pdf''"] unfolding m3 c by simp
  have s4: "upload_result_step ex_clock [ex_pdf] (JObj ex_other) (0, 0, app_init) = Inr (0, 0, app_init)"
    using 4 inst [where kvs = ex_other and v = "JStr ''a.pdf''"] by simp
  have f1: "find_file [ex_pdf] (JStr ''a.pdf'') = FFile ex_pdf"
    using inst [where kvs = ex_other and v = "JStr ''a.pdf''"] unfolding ff by simp
  have f2: "find_file [ex_pdf] (JStr ''a_1.pdf'') = FUndefined"
    using inst [where kvs = ex_other and v = "JStr ''a_1.pdf''"] unfolding ff by simp
  have h: "App_handleUpload ex_server_mixed ex_clock [ex_pdf] app_init =
      handleUpload_outcome ex_server_mixed ex_clock [ex_pdf]
        [JObj ex_success, JObj ex_other, JObj ex_duplicate_a, JObj ex_error] app_init"
    using u it inst [where kvs = ex_other and v = "JStr ''a.pdf''"] by blast
  show ?thesis
    using 1 2 3 4 s1 s2 s3 s4 f1 f2 u it h unfolding ex_mixed_outcome by blast
qed



section \<open>App: resolving a duplicate\<close>

lemma DuplicateModal_actions:
  "DuplicateModal d isLoading = Some bs \<Longrightarrow>
     map btn_action bs = [''use_existing'', ''replace'', ''cancel'']
     \<and> list_all (\<lambda>b. btn_disabled b = isLoading) bs"
  by (auto simp: DuplicateModal_def split: if_splits)

lemma click_logged:
  "fst (click (logged cb) b (log, w)) = (if btn_disabled b then log else log @ [btn_action b])"
  by (simp add: click_def logged_def split: prod.splits)

lemma handleDuplicateAction_guard:
  "pendingFile s = FNull \<or> pendingFile s = FUndefined \<Longrightarrow>
   handleDuplicateAction srv clock action s = s"
  by (auto simp: handleDuplicateAction_def)

lemma handleDuplicateAction_clears:
  assumes "pendingFile s = FFile f"
  shows "duplicateInfo (handleDuplicateAction srv clock action s) = JNull"
    and "pendingFile (handleDuplicateAction srv clock action s) = FNull"
    and "\<not> isUploading (handleDuplicateAction srv clock action s)"
  using assms by (simp_all add: handleDuplicateAction_def Let_def)

lemma handleDuplicateAction_requests:
  assumes "pendingFile s = FFile f"
  shows "\<exists>rest. requests (handleDuplicateAction srv clock action s) =
           requests s @ duplicate_request f action # rest"
proof -
  obtain r where h: "handleDuplicate srv f action (requests s) =
      (r, requests s @ [duplicate_request f action])"
    by (simp add: handleDuplicate_single single_request_def)
  show ?thesis
    using assms h
    by (cases r)
       (simp_all add: handleDuplicateAction_def Let_def refreshData_requests)
qed

lemma ex_pending_slot:
  "(duplicateInfo (App_handleUpload ex_server ex_clock [ex_pdf] app_init),
    pendingFile (App_handleUpload ex_server ex_clock [ex_pdf] app_init)) =
   (JObj [(''status'', JStr ''duplicate''), (''filename'', JStr ''a.pdf''),
          (''existing_filename'', JStr ''a.pdf'')], FFile ex_pdf)"
proof -
  have u: "fst (uploadPDFs ex_server [ex_pdf] (requests app_init)) =
     Inr (JArr [JObj [(''status'', JStr ''duplicate''), (''filename'', JStr ''a.pdf''),
          (''existing_filename'', JStr ''a.pdf'')]])"
    by (simp add: uploadPDFs_single single_request_def ex_server_def ok_response_def)
  show ?thesis
    unfolding handleUpload_slot [OF u]
    by (simp add: slot_after_def processed_def nullish_def is_duplicate_def find_file_def
        ex_pdf_def app_init_def)
qed

lemma ex_stuck_slot:
  "(duplicateInfo (App_handleUpload ex_server_renaming ex_clock [ex_pdf] app_init),
    pendingFile (App_handleUpload ex_server_renaming ex_clock [ex_pdf] app_init)) =
   (JObj [(''status'', JStr ''duplicate''), (''filename'', JStr ''a_1.pdf'')], FUndefined)"
proof -
  have u: "fst (uploadPDFs ex_server_renaming [ex_pdf] (requests app_init)) =
     Inr (JArr [JObj [(''status'', JStr ''duplicate''), (''filename'', JStr ''a_1.pdf'')]])"
    by (simp add: uploadPDFs_single single_request_def ex_server_renaming_def ok_response_def)
  show ?thesis
    unfolding handleUpload_slot [OF u]
    by (simp add: slot_after_def processed_def nullish_def is_duplicate_def find_file_def
        ex_pdf_def app_init_def)
qed

text \<open>
  Claim C2. The modal renders exactly three buttons, whose actions are
  \<^verbatim>\<open>use_existing\<close>, \<^verbatim>\<open>replace\<close> and \<^verbatim>\<open>cancel\<close>; a click on one of them calls \<^verbatim>\<open>onAction\<close>
  once with the action of that button (and not at all while the button is disabled);
  \<^verbatim>\<open>handleDuplicate\<close> sends one request whose form field \<^verbatim>\<open>action\<close> is the string it was
  given; and so does \<^verbatim>\<open>App\<close>'s \<^verbatim>\<open>onAction\<close> while a file is pending.
\<close>

theorem duplicate_actions_three_and_forwarded:
  "(DuplicateModal d isLoading = Some bs \<longrightarrow>
      map btn_action bs = [''use_existing'', ''replace'', ''cancel''])
   \<and> (DuplicateModal d isLoading = Some bs \<and> b \<in> set bs \<longrightarrow>
      btn_action b \<in> {''use_existing'', ''replace'', ''cancel''}
      \<and> fst (click (logged cb) b (log, w)) = (if isLoading then log else log @ [btn_action b]))
   \<and> snd (handleDuplicate srv file action rs) =
        rs @ [\<lparr>req_url = API_BASE_URL @ ''/handle-duplicate'', req_method = ''POST'',
                req_headers = [],
                req_body = FormDataBody [(''file'', FormFile file), (''action'', FormString action)]\<rparr>]
   \<and> form_get (FormDataBody [(''file'', FormFile file), (''action'', FormString action)]) ''action''
        = Some (FormString action)
   \<and> (pendingFile s = FFile file \<longrightarrow>
        (\<exists>rest. requests (snd (onAction_of_App srv clock action s)) =
           requests s @
             \<lparr>req_url = API_BASE_URL @ ''/handle-duplicate'', req_method = ''POST'',
               req_headers = [],
               req_body = FormDataBody [(''file'', FormFile file), (''action'', FormString action)]\<rparr>
             # rest))"
proof -
  have a: "DuplicateModal d isLoading = Some bs \<longrightarrow>
      map btn_action bs = [''use_existing'', ''replace'', ''cancel'']"
    using DuplicateModal_actions by blast
  have b: "DuplicateModal d isLoading = Some bs \<and> b \<in> set bs \<longrightarrow>
      btn_action b \<in> {''use_existing'', ''replace'', ''cancel''}
      \<and> fst (click (logged cb) b (log, w)) = (if isLoading then log else log @ [btn_action b])"
  proof
    assume h: "DuplicateModal d isLoading = Some bs \<and> b \<in> set bs"
    then have m: "map btn_action bs = [''use_existing'', ''replace'', ''cancel'']"
      and dis: "list_all (\<lambda>b. btn_disabled b = isLoading) bs"
      using DuplicateModal_actions by blast+
    from h have "btn_action b \<in> set (map btn_action bs)" by simp
    then have 1: "btn_action b \<in> {''use_existing'', ''replace'', ''cancel''}"
      unfolding m by simp
    from dis h have "btn_disabled b = isLoading" by (simp add: list_all_iff)
    then have 2: "fst (click (logged cb) b (log, w)) =
        (if isLoading then log else log @ [btn_action b])"
      by (simp add: click_logged)
    from 1 2 show "btn_action b \<in> {''use_existing'', ''replace'', ''cancel''}
      \<and> fst (click (logged cb) b (log, w)) = (if isLoading then log else log @ [btn_action b])"
      by blast
  qed
  have c: "snd (handleDuplicate srv file action rs) =
        rs @ [\<lparr>req_url = API_BASE_URL @ ''/handle-duplicate'', req_method = ''POST'',
                req_headers = [],
                req_body = FormDataBody [(''file'', FormFile file), (''action'', FormString action)]\<rparr>]"
    by (simp add: handleDuplicate_single single_request_def duplicate_request_def)
  have d: "form_get (FormDataBody [(''file'', FormFile file), (''action'', FormString action)]) ''action''
        = Some (FormString action)"
    by (simp add: form_get_def)
  have e: "pendingFile s = FFile file \<longrightarrow>
        (\<exists>rest. requests (snd (onAction_of_App srv clock action s)) =
           requests s @
             \<lparr>req_url = API_BASE_URL @ ''/handle-duplicate'', req_method = ''POST'',
               req_headers = [],
               req_body = FormDataBody [(''file'', FormFile file), (''action'', FormString action)]\<rparr>
             # rest)"
    using handleDuplicateAction_requests [of s "file" srv clock action]
    by (simp add: onAction_of_App_def duplicate_request_def)
  from a b c d e show ?thesis by blast
qed

theorem duplicate_actions_three_and_forwarded_witness:
  "DuplicateModal (JObj ex_duplicate_a) False =
     Some [\<lparr>btn_className = ''btn btn-secondary'', btn_action = ''use_existing'', btn_disabled = False\<rparr>,
           \<lparr>btn_className = ''btn btn-warning'', btn_action = ''replace'', btn_disabled = False\<rparr>,
           \<lparr>btn_className = ''btn btn-danger'', btn_action = ''cancel'', btn_disabled = False\<rparr>]
   \<and> fst (click (logged (\<lambda>a w. (Inr (), w)))
        \<lparr>btn_className = ''btn btn-warning'', btn_action = ''replace'', btn_disabled = False\<rparr>
        ([], ())) = [''replace'']
   \<and> pendingFile (App_handleUpload ex_server ex_clock [ex_pdf] app_init) = FFile ex_pdf
   \<and> (\<exists>rest. requests (snd (onAction_of_App ex_server ex_clock ''replace''
                (App_handleUpload ex_server ex_clock [ex_pdf] app_init))) =
        requests (App_handleUpload ex_server ex_clock [ex_pdf] app_init) @
          \<lparr>req_url = API_BASE_URL @ ''/handle-duplicate'', req_method = ''POST'',
            req_headers = [],
            req_body = FormDataBody [(''file'', FormFile ex_pdf), (''action'', FormString ''replace'')]\<rparr>
          # rest)"
proof -
  have m: "DuplicateModal (JObj ex_duplicate_a) False =
     Some [\<lparr>btn_className = ''btn btn-secondary'', btn_action = ''use_existing'', btn_disabled = False\<rparr>,
           \<lparr>btn_className = ''btn btn-warning'', btn_action = ''replace'', btn_disabled = False\<rparr>,
           \<lparr>btn_className = ''btn btn-danger'', btn_action = ''cancel'', btn_disabled = False\<rparr>]"
    by (simp add: DuplicateModal_def)
  have p: "pendingFile (App_handleUpload ex_server ex_clock [ex_pdf] app_init) = FFile ex_pdf"
    using ex_pending_slot by simp
  show ?thesis
    using m p
      duplicate_actions_three_and_forwarded [of "JObj ex_duplicate_a" False
            "[\<lparr>btn_className = ''btn btn-secondary'', btn_action = ''use_existing'', btn_disabled = False\<rparr>,
              \<lparr>btn_className = ''btn btn-warning'', btn_action = ''replace'', btn_disabled = False\<rparr>,
              \<lparr>btn_className = ''btn btn-danger'', btn_action = ''cancel'', btn_disabled = False\<rparr>]"
            "\<lparr>btn_className = ''btn btn-warning'', btn_action = ''replace'', btn_disabled = False\<rparr>"
            "\<lambda>a w. (Inr (), w)" "[]" "()" ex_server ex_pdf "''replace''" "[]"
            "App_handleUpload ex_server ex_clock [ex_pdf] app_init" ex_clock]
    by simp
qed

text \<open>
  Claim C4, as stated, fails: after an upload whose duplicate result names no uploaded
  file, \<^verbatim>\<open>pendingFile\<close> is undefined, the guard of \<^verbatim>\<open>handleDuplicateAction\<close> returns at
  once, and \<^verbatim>\<open>duplicateInfo\<close> is still set when the handler has completed.
\<close>

theorem handleDuplicateAction_guard_keeps_duplicateInfo:
  "duplicateInfo (handleDuplicateAction ex_server_renaming ex_clock ''cancel''
      (App_handleUpload ex_server_renaming ex_clock [ex_pdf] app_init)) \<noteq> JNull"
proof -
  have p: "pendingFile (App_handleUpload ex_server_renaming ex_clock [ex_pdf] app_init) = FUndefined"
    and d: "duplicateInfo (App_handleUpload ex_server_renaming ex_clock [ex_pdf] app_init) =
      JObj [(''status'', JStr ''duplicate''), (''filename'', JStr ''a_1.pdf'')]"
    using ex_stuck_slot by simp_all
  show ?thesis
    using handleDuplicateAction_guard [of _ ex_server_renaming ex_clock "''cancel''"] p d
    by simp
qed

text \<open>
  Claim C4, amended. When a file is pending, then for every action and every outcome
  of the resolution request (a result of status \<^verbatim>\<open>success\<close>, \<^verbatim>\<open>cancelled\<close> or any other,
  or a throw), \<^verbatim>\<open>duplicateInfo\<close> and \<^verbatim>\<open>pendingFile\<close> are null and \<^verbatim>\<open>isUploading\<close> is false
  once \<^verbatim>\<open>handleDuplicateAction\<close> has completed.
\<close>

theorem handleDuplicateAction_clears_when_pending:
  "pendingFile s = FFile f \<longrightarrow>
      duplicateInfo (handleDuplicateAction srv clock action s) = JNull
      \<and> pendingFile (handleDuplicateAction srv clock action s) = FNull
      \<and> \<not> isUploading (handleDuplicateAction srv clock action s)"
  using handleDuplicateAction_clears [of s f srv clock action] by blast

theorem handleDuplicateAction_clears_when_pending_witness:
  "pendingFile (App_handleUpload ex_server ex_clock [ex_pdf] app_init) = FFile ex_pdf
   \<and> duplicateInfo (App_handleUpload ex_server ex_clock [ex_pdf] app_init) \<noteq> JNull
   \<and> duplicateInfo (handleDuplicateAction ex_server ex_clock ''cancel''
        (App_handleUpload ex_server ex_clock [ex_pdf] app_init)) = JNull
   \<and> pendingFile (handleDuplicateAction ex_server ex_clock ''cancel''
        (App_handleUpload ex_server ex_clock [ex_pdf] app_init)) = FNull
   \<and> \<not> isUploading (handleDuplicateAction ex_server ex_clock ''cancel''
        (App_handleUpload ex_server ex_clock [ex_pdf] app_init))"
proof -
  have p: "pendingFile (App_handleUpload ex_server ex_clock [ex_pdf] app_init) = FFile ex_pdf"
    and d: "duplicateInfo (App_handleUpload ex_server ex_clock [ex_pdf] app_init) \<noteq> JNull"
    using ex_pending_slot by simp_all
  show ?thesis
    using p d
      handleDuplicateAction_clears_when_pending
        [of "App_handleUpload ex_server ex_clock [ex_pdf] app_init" ex_pdf
            ex_server ex_clock "''cancel''"]
    by simp
qed

section \<open>The ingestion core\<close>

lemma find_by_hash_None: "find_by_hash h reg = None \<longleftrightarrow> h \<notin> set (map content_hash reg)"
  by (auto simp: find_by_hash_def find_None_iff)

lemma find_by_hash_Some:
  "find_by_hash h reg = Some d \<Longrightarrow> d \<in> set reg \<and> content_hash d = h"
  by (auto simp: find_by_hash_def find_Some_iff)

lemma find_by_hash_append_new:
  "find_by_hash h reg = None \<Longrightarrow> content_hash d = h \<Longrightarrow> find_by_hash h (reg @ [d]) = Some d"
  by (induction reg) (auto simp: find_by_hash_def split: if_splits)

lemma ingest_duplicate:
  "find_by_hash (digest c bytes) (registry (live st)) = Some d \<Longrightarrow>
   ingest c n bytes pages st = (Duplicate d, st)"
  by (simp add: ingest_def Let_def)

lemma ingest_success_registry:
  assumes "ingest c n bytes pages st = (Success n' k p e, st1)"
  shows "\<exists>d. registry (live st1) = registry (live st) @ [d] \<and> content_hash d = digest c bytes
           \<and> find_by_hash (digest c bytes) (registry (live st)) = None
           \<and> doc_id d = next_doc_id st \<and> filename d = n"
  using assms
  by (auto simp: ingest_def Let_def split: option.splits)

lemma ingest_not_success_state:
  "ingest c n bytes pages st = (r, st1) \<Longrightarrow> (\<forall>n' k p e. r \<noteq> Success n' k p e) \<Longrightarrow> st1 = st"
  by (auto simp: ingest_def Let_def split: option.splits)

lemma ingest_keeps_unique:
  assumes "hashes_unique st" and "ingest c n bytes pages st = (r, st1)"
  shows "hashes_unique st1"
proof (cases r)
  case (Success n' k p e)
  with assms(2) ingest_success_registry [of c n bytes pages st n' k p e st1]
  obtain d where "registry (live st1) = registry (live st) @ [d]"
    and "content_hash d = digest c bytes"
    and "find_by_hash (digest c bytes) (registry (live st)) = None" by blast
  then show ?thesis using assms(1) by (simp add: hashes_unique_def find_by_hash_None)
next
  case (Duplicate d)
  then show ?thesis using assms ingest_not_success_state [of c n bytes pages st r st1] by simp
next
  case IngestionFailed
  then show ?thesis using assms ingest_not_success_state [of c n bytes pages st r st1] by simp
qed

lemma count_one:
  "distinct (map content_hash reg) \<Longrightarrow> d \<in> set reg \<Longrightarrow>
   length (filter (\<lambda>x. content_hash x = content_hash d) reg) = 1"
proof (induction reg)
  case Nil
  then show ?case by simp
next
  case (Cons x reg)
  show ?case
  proof (cases "x = d")
    case True
    have "filter (\<lambda>y. content_hash y = content_hash d) reg = []"
      using Cons.prems(1) True by (auto simp: filter_empty_conv) (metis imageI)
    then show ?thesis using True by simp
  next
    case False
    then have "d \<in> set reg" using Cons.prems(2) by simp
    moreover have "content_hash x \<noteq> content_hash d"
      using Cons.prems(1) \<open>d \<in> set reg\<close> by auto
    ultimately show ?thesis using Cons by simp
  qed
qed

lemma ingest_again:
  assumes i: "ingest c n bytes pages st = (r, st1)" and ok: "r \<noteq> IngestionFailed"
    and dg: "digest c2 bytes = digest c bytes"
  shows "\<exists>d1. ingest c2 n2 bytes pages2 st1 = (Duplicate d1, st1)
            \<and> content_hash d1 = digest c bytes \<and> d1 \<in> set (registry (live st1))"
proof (cases r)
  case (Success n' k p e)
  from ingest_success_registry [OF i [unfolded Success]]
  obtain d1 where r: "registry (live st1) = registry (live st) @ [d1]"
    and h: "content_hash d1 = digest c bytes"
    and f: "find_by_hash (digest c bytes) (registry (live st)) = None" by blast
  have "find_by_hash (digest c2 bytes) (registry (live st1)) = Some d1"
    unfolding r dg using f h by (rule find_by_hash_append_new)
  then have "ingest c2 n2 bytes pages2 st1 = (Duplicate d1, st1)"
    by (rule ingest_duplicate)
  with h r show ?thesis by auto
next
  case (Duplicate d)
  then have st: "st1 = st" using i ingest_not_success_state [of c n bytes pages st r st1] by simp
  have f: "find_by_hash (digest c bytes) (registry (live st)) = Some d"
    using i Duplicate by (auto simp: ingest_def Let_def split: option.splits)
  then have "ingest c2 n2 bytes pages2 st1 = (Duplicate d, st1)"
    unfolding st using dg ingest_duplicate [of c2 bytes st d n2 pages2] by simp
  with find_by_hash_Some [OF f] st show ?thesis by auto
next
  case IngestionFailed
  with ok show ?thesis by simp
qed

lemma ex_chunks: "chunk_pages 200 50 [(Suc 0, ''hello  world'')] = [(''hello world'', Suc 0)]"
  by code_simp

lemma ex_digest: "show_nat 6 = ''6''"
  by (simp add: show_nat.simps digit_char_def)

lemma ex_first_upload:
  "ingest ex_collaborators ''a.pdf'' [1, 2, 3] [(1, ''hello  world'')] backend_init =
     (Success ''a.pdf'' 1 1 False, ex_backend)"
  by (simp add: ingest_def Let_def ex_collaborators_def backend_init_def find_by_hash_def
      ex_chunks ex_digest ex_backend_def ex_document_def)

text \<open>
  Claim C7. When the registry holds a document with the digest of the uploaded bytes,
  ingestion returns the duplicate result with that document and the backend (stores,
  durable snapshot, id counter) is as it was, whatever the embedding collaborator would
  have done. Hence after an upload that did not fail, an upload of the same bytes is a
  duplicate and changes nothing; and the digests of the registry stay distinct, so that
  the registry holds exactly one document of that content.
\<close>

theorem ingest_identical_content_is_duplicate:
  "(find_by_hash (digest c bytes) (registry (live st)) = Some d \<longrightarrow>
      ingest c n bytes pages st = (Duplicate d, st))
   \<and> (ingest c n bytes pages st = (r, st1) \<and> r \<noteq> IngestionFailed
        \<and> digest c2 bytes = digest c bytes \<longrightarrow>
      (\<exists>d1. ingest c2 n2 bytes pages2 st1 = (Duplicate d1, st1)
            \<and> content_hash d1 = digest c bytes
            \<and> (hashes_unique st \<longrightarrow>
                 length (filter (\<lambda>x. content_hash x = digest c bytes) (registry (live st1))) = 1)))
   \<and> (hashes_unique st \<and> ingest c n bytes pages st = (r, st1) \<longrightarrow> hashes_unique st1)"
proof -
  have a: "find_by_hash (digest c bytes) (registry (live st)) = Some d \<longrightarrow>
      ingest c n bytes pages st = (Duplicate d, st)"
    using ingest_duplicate by blast
  have b: "ingest c n bytes pages st = (r, st1) \<and> r \<noteq> IngestionFailed
        \<and> digest c2 bytes = digest c bytes \<longrightarrow>
      (\<exists>d1. ingest c2 n2 bytes pages2 st1 = (Duplicate d1, st1)
            \<and> content_hash d1 = digest c bytes
            \<and> (hashes_unique st \<longrightarrow>
                 length (filter (\<lambda>x. content_hash x = digest c bytes) (registry (live st1))) = 1))"
  proof
    assume h: "ingest c n bytes pages st = (r, st1) \<and> r \<noteq> IngestionFailed
        \<and> digest c2 bytes = digest c bytes"
    then obtain d1 where 1: "ingest c2 n2 bytes pages2 st1 = (Duplicate d1, st1)"
      and 2: "content_hash d1 = digest c bytes" and 3: "d1 \<in> set (registry (live st1))"
      using ingest_again [of c n bytes pages st r st1 c2 n2 pages2] by blast
    have "hashes_unique st \<longrightarrow>
        length (filter (\<lambda>x. content_hash x = digest c bytes) (registry (live st1))) = 1"
    proof
      assume "hashes_unique st"
      then have "hashes_unique st1" using h ingest_keeps_unique by blast
      then show "length (filter (\<lambda>x. content_hash x = digest c bytes) (registry (live st1))) = 1"
        using count_one [of "registry (live st1)" d1] 3 2 by (simp add: hashes_unique_def)
    qed
    with 1 2 show "\<exists>d1. ingest c2 n2 bytes pages2 st1 = (Duplicate d1, st1)
            \<and> content_hash d1 = digest c bytes
            \<and> (hashes_unique st \<longrightarrow>
                 length (filter (\<lambda>x. content_hash x = digest c bytes) (registry (live st1))) = 1)"
      by blast
  qed
  have cc: "hashes_unique st \<and> ingest c n bytes pages st = (r, st1) \<longrightarrow> hashes_unique st1"
    using ingest_keeps_unique by blast
  from a b cc show ?thesis by blast
qed

theorem ingest_identical_content_is_duplicate_witness:
  "ingest ex_collaborators ''a.pdf'' [1, 2, 3] [(1, ''hello  world'')] backend_init =
     (Success ''a.pdf'' 1 1 False, ex_backend)
   \<and> hashes_unique (backend_init :: nat backend)
   \<and> find_by_hash (digest ex_collaborators [1, 2, 3]) (registry (live ex_backend)) = Some ex_document
   \<and> ingest ex_collaborators_down ''copy.pdf'' [1, 2, 3] [] ex_backend = (Duplicate ex_document, ex_backend)
   \<and> length (filter (\<lambda>x. content_hash x = ''6'') (registry (live ex_backend))) = 1
   \<and> hashes_unique ex_backend"
proof -
  have u: "hashes_unique (backend_init :: nat backend)"
    by (simp add: hashes_unique_def backend_init_def)
  have f: "find_by_hash (digest ex_collaborators [1, 2, 3]) (registry (live ex_backend)) = Some ex_document"
    by (simp add: find_by_hash_def ex_collaborators_def ex_digest ex_backend_def ex_document_def)
  have ne: "Success ''a.pdf'' 1 1 False \<noteq> IngestionFailed" by simp
  have dg: "digest ex_collaborators_down [1, 2, 3] = digest ex_collaborators [1, 2, 3]"
    by (simp add: ex_collaborators_down_def)
  have six: "digest ex_collaborators [1, 2, 3] = ''6''"
    by (simp add: ex_collaborators_def ex_digest)
  show ?thesis
    using ex_first_upload u f ne dg
      ingest_identical_content_is_duplicate [of ex_collaborators_down "[1, 2, 3]" ex_backend ex_document "''copy.pdf''" "[]"
            "Success ''a.pdf'' 1 1 False" ex_backend ex_collaborators_down "''copy.pdf''" "[]"]
      ingest_identical_content_is_duplicate [of ex_collaborators "[1, 2, 3]" backend_init ex_document "''a.pdf''"
            "[(1, ''hello  world'')]" "Success ''a.pdf'' 1 1 False" ex_backend
            ex_collaborators_down "''copy.pdf''" "[]"]
    unfolding six
    by auto
qed

end
